theory Spec2Isabelle
  imports Main "HOL-Library.Word"
begin

section \<open>The lexer driver of the C++ runtime (runtime/Cpp/runtime/Lexer.cpp)\<close>

text \<open>
  The development embeds \<^verbatim>\<open>Lexer.cpp\<close>: the token production loop \<^verbatim>\<open>nextToken\<close>, the
  emission operations, the mode stack, \<^verbatim>\<open>reset\<close>, \<^verbatim>\<open>getAllTokens\<close>, error recovery and
  the error display. The collaborators of the driver (input cursor, token factory,
  recognition engine, listener) are not part of the file; they are modelled from the
  specification or taken as parameters, as said at each definition.
\<close>

subsection \<open>Integers, wide strings and constants\<close>

text \<open>
  The positions the driver computes with are machine integers: a C++ \<^verbatim>\<open>int\<close> is a word of
  32 bits read as a signed number (\<open>sint\<close>), \<^verbatim>\<open>size_t\<close> and \<^verbatim>\<open>ssize_t\<close> are words of 64
  bits. The cast \<^verbatim>\<open>(int)\<close> of a \<^verbatim>\<open>size_t\<close> keeps the low 32 bits (\<open>ucast\<close>), the cast
  \<^verbatim>\<open>(size_t)\<close> of an \<^verbatim>\<open>int\<close> extends the sign (\<open>scast\<close>), and \<open>+\<close> and \<open>-\<close> wrap
  around, as they do on the two's complement machines the runtime is compiled for (for
  \<^verbatim>\<open>int\<close> the C++ standard leaves the overflow undefined).

  Token types, channels, modes and character codes are only stored and compared, never
  computed with; they are mathematical integers. A \<^verbatim>\<open>wchar_t\<close> is its code and a
  \<^verbatim>\<open>std::wstring\<close> a list of codes; \<open>L\<close> is the wide literal \<^verbatim>\<open>L"..."\<close> of an ASCII
  string.
\<close>

type_synonym c_int = "32 word"
type_synonym size_t = "64 word"
type_synonym ssize_t = "64 word"

type_synonym wchar = int
type_synonym wstring = "wchar list"

definition L :: "string \<Rightarrow> wstring" where
  "L cs = map of_char cs"

text \<open>
  The constants are declared in the headers \<^verbatim>\<open>Token.h\<close>, \<^verbatim>\<open>IntStream.h\<close> and \<^verbatim>\<open>Lexer.h\<close>,
  which are not in the source files; they have the values of the ANTLR 4 runtime.
\<close>

definition EOF :: int where "EOF = - 1"
definition INVALID_TYPE :: int where "INVALID_TYPE = 0"
definition DEFAULT_CHANNEL :: int where "DEFAULT_CHANNEL = 0"
definition DEFAULT_MODE :: int where "DEFAULT_MODE = 0"
definition MORE :: int where "MORE = - 2"
definition SKIP :: int where "SKIP = - 3"

datatype exn =
  IllegalStateException
  | EmptyStackException
  | LexerNoViableAltException
  | OtherException

subsection \<open>The input cursor\<close>

text \<open>
  Modelled from the spec: the Input Cursor (\<^verbatim>\<open>CharStream\<close>) is not in the source file. It is
  a character sequence with a current position and the operations \<^verbatim>\<open>index\<close>, \<^verbatim>\<open>seek\<close>,
  \<^verbatim>\<open>mark\<close>, \<^verbatim>\<open>release\<close>, \<^verbatim>\<open>consume\<close>, \<^verbatim>\<open>LA(1)\<close> and \<^verbatim>\<open>getText(span)\<close>. The cursor
  keeps the markers that were handed out and not released yet, the latest first: \<^verbatim>\<open>mark\<close>
  adds a fresh marker and returns it, \<^verbatim>\<open>release\<close> takes the given marker away. Neither
  moves the cursor.
\<close>

record char_stream =
  data :: wstring
  p :: nat
  markers :: "ssize_t list"

definition index :: "char_stream \<Rightarrow> size_t" where
  "index c = of_nat (p c)"

definition seek :: "nat \<Rightarrow> char_stream \<Rightarrow> char_stream" where
  "seek i c = c\<lparr>p := min i (length (data c))\<rparr>"

definition mark :: "char_stream \<Rightarrow> ssize_t \<times> char_stream" where
  "mark c =
     (let m = - of_nat (length (markers c)) - 1
      in (m, c\<lparr>markers := m # markers c\<rparr>))"

definition release :: "ssize_t \<Rightarrow> char_stream \<Rightarrow> char_stream" where
  "release m c = c\<lparr>markers := remove1 m (markers c)\<rparr>"

definition LA1 :: "char_stream \<Rightarrow> int" where
  "LA1 c = (if p c < length (data c) then data c ! p c else EOF)"

definition consume_char :: "char_stream \<Rightarrow> char_stream" where
  "consume_char c = c\<lparr>p := Suc (p c)\<rparr>"

text \<open>The text of \<^verbatim>\<open>Interval(a, b)\<close>, both ends included.\<close>

definition getText_span :: "char_stream \<Rightarrow> int \<Rightarrow> int \<Rightarrow> wstring" where
  "getText_span c a b = take (nat (b - a + 1)) (drop (nat a) (data c))"

subsection \<open>Tokens\<close>

text \<open>
  Modelled from the spec: the Token Factory is not in the source file. Its \<^verbatim>\<open>create\<close>
  takes type, text, channel, start and stop offsets, line and column (after the
  source-pair identity, which carries no data of the driver) and produces a token value
  holding them.
\<close>

record token =
  tk_type :: int
  tk_text :: wstring
  tk_channel :: int
  tk_startIndex :: c_int
  tk_stopIndex :: c_int
  tk_line :: c_int
  tk_charPositionInLine :: c_int

definition create ::
  "int \<Rightarrow> wstring \<Rightarrow> int \<Rightarrow> c_int \<Rightarrow> c_int \<Rightarrow> c_int \<Rightarrow> c_int \<Rightarrow> token" where
  "create ty tx ch start stop ln col =
     \<lparr>tk_type = ty, tk_text = tx, tk_channel = ch, tk_startIndex = start,
      tk_stopIndex = stop, tk_line = ln, tk_charPositionInLine = col\<rparr>"

subsection \<open>The driver's state\<close>

text \<open>
  The fields of \<^verbatim>\<open>Lexer\<close>, with the leading underscore of the C++ names dropped;
  \<^verbatim>\<open>_text\<close> is \<open>text'\<close>. The line and column of the recognition engine
  (\<^verbatim>\<open>getInterpreter<LexerATNSimulator>()\<close>) are the fields \<open>line\<close> (a \<^verbatim>\<open>size_t\<close>) and
  \<open>charPositionInLine\<close> (an \<^verbatim>\<open>int\<close>).

  The pointer \<^verbatim>\<open>_token\<close> is \<open>None\<close> for \<^verbatim>\<open>nullptr\<close> and \<open>Some t\<close> when it points to a
  token with the contents \<open>t\<close>. \<open>token_freed\<close> tells that the token it points to has been
  destroyed by \<^verbatim>\<open>delete\<close>; a pointer to a destroyed token is dangling.

  The pointer \<^verbatim>\<open>_input\<close> is kept beside the record: as a \<open>char_stream option\<close> where the
  code tests it against \<^verbatim>\<open>nullptr\<close>, and as the \<open>char_stream\<close> it points to where the code
  dereferences it.
\<close>

record lexer =
  token :: "token option"
  token_freed :: bool
  type :: int
  channel :: int
  tokenStartCharIndex :: c_int
  tokenStartCharPositionInLine :: c_int
  tokenStartLine :: c_int
  text' :: wstring
  hitEOF :: bool
  mode :: int
  modeStack :: "int list"
  line :: size_t
  charPositionInLine :: c_int

definition dangling :: "lexer \<Rightarrow> bool" where
  "dangling s \<longleftrightarrow> token s \<noteq> None \<and> token_freed s"

subsection \<open>What the driver calls outside itself\<close>

text \<open>
  The calls the driver makes on the cursor's marks and on the listener dispatch are kept as
  a trace of events, in the order of the calls: \<open>Mark m\<close> for \<^verbatim>\<open>_input->mark()\<close>
  returning \<open>m\<close>, \<open>Release m\<close> for \<^verbatim>\<open>_input->release(m)\<close>, and
  \<open>SyntaxError ln col msg\<close> for \<^verbatim>\<open>listener->syntaxError(this, nullptr, ln, col, msg, e)\<close>.
\<close>

datatype event =
  Mark ssize_t
  | Release ssize_t
  | SyntaxError size_t c_int wstring

text \<open>
  The recognition engine's \<^verbatim>\<open>match(_input, _mode)\<close> is a parameter. It receives the cursor
  and the driver (it reads the mode there, and the actions it runs call back into the
  driver), returns a token type or throws, and leaves the cursor and the driver as it
  likes.
\<close>

record env =
  match :: "char_stream \<Rightarrow> lexer \<Rightarrow> (exn + int) \<times> char_stream \<times> lexer"

text \<open>
  Modelled from the spec: the position tracking of the Recognition Engine is not in the
  source file. Its \<^verbatim>\<open>reset\<close> returns to the first line and column; its \<^verbatim>\<open>consume\<close>
  takes exactly one character from the cursor and tracks line and column over it.
\<close>

definition interp_reset :: "lexer \<Rightarrow> lexer" where
  "interp_reset s = s\<lparr>line := 1, charPositionInLine := 0\<rparr>"

definition interp_consume :: "char_stream \<Rightarrow> lexer \<Rightarrow> char_stream \<times> lexer" where
  "interp_consume c s =
     (consume_char c,
      if LA1 c = 10 then s\<lparr>line := line s + 1, charPositionInLine := 0\<rparr>
      else s\<lparr>charPositionInLine := charPositionInLine s + 1\<rparr>)"

subsection \<open>The operations of the driver\<close>

text \<open>
  \<^verbatim>\<open>Lexer::reset\<close>. The statement \<^verbatim>\<open>delete _token;\<close> destroys the token and leaves the
  pointer as it is: the code does not store \<^verbatim>\<open>nullptr\<close> here, as it does in
  \<^verbatim>\<open>nextToken\<close>. So after \<^verbatim>\<open>reset\<close> a pointer that was set is dangling. (On a pointer
  that is dangling already the second \<^verbatim>\<open>delete\<close> is undefined; \<open>reset\<close> leaves it
  dangling.)
\<close>

definition reset :: "char_stream option \<Rightarrow> lexer \<Rightarrow> char_stream option \<times> lexer" where
  "reset inp s =
     (map_option (seek 0) inp,
      interp_reset
        (s\<lparr>token_freed := (token s \<noteq> None),
           type := INVALID_TYPE,
           channel := DEFAULT_CHANNEL,
           tokenStartCharIndex := - 1,
           tokenStartCharPositionInLine := - 1,
           tokenStartLine := - 1,
           text' := [],
           hitEOF := False,
           mode := DEFAULT_MODE,
           modeStack := []\<rparr>))"

definition skip :: "lexer \<Rightarrow> lexer" where
  "skip s = s\<lparr>type := SKIP\<rparr>"

definition more :: "lexer \<Rightarrow> lexer" where
  "more s = s\<lparr>type := MORE\<rparr>"

text \<open>\<^verbatim>\<open>Lexer::mode(int m)\<close>; the field has the name \<open>mode\<close>.\<close>

definition mode_m :: "int \<Rightarrow> lexer \<Rightarrow> lexer" where
  "mode_m m s = s\<lparr>mode := m\<rparr>"

text \<open>
  The mode stack is a \<^verbatim>\<open>std::vector\<close>: \<^verbatim>\<open>push_back\<close> appends, \<^verbatim>\<open>back\<close> is the last
  element, \<^verbatim>\<open>pop_back\<close> removes it. The debug output is left out.
\<close>

definition pushMode :: "int \<Rightarrow> lexer \<Rightarrow> lexer" where
  "pushMode m s = mode_m m (s\<lparr>modeStack := modeStack s @ [mode s]\<rparr>)"

definition popMode :: "lexer \<Rightarrow> exn + int \<times> lexer" where
  "popMode s =
     (if modeStack s = [] then Inl EmptyStackException
      else
        (let s1 = mode_m (last (modeStack s)) s;
             s2 = s1\<lparr>modeStack := butlast (modeStack s1)\<rparr>
         in Inr (mode s2, s2)))"

definition getLine :: "lexer \<Rightarrow> size_t" where
  "getLine s = line s"

definition getCharPositionInLine :: "lexer \<Rightarrow> c_int" where
  "getCharPositionInLine s = charPositionInLine s"

text \<open>
  \<^verbatim>\<open>Lexer::setLine\<close> hands the line to the engine, which stores it (the engine's
  \<^verbatim>\<open>setLine\<close> is not in the source file); \<^verbatim>\<open>Lexer::setChannel\<close>.
\<close>

definition setLine :: "size_t \<Rightarrow> lexer \<Rightarrow> lexer" where
  "setLine ln s = s\<lparr>line := ln\<rparr>"

definition setChannel :: "int \<Rightarrow> lexer \<Rightarrow> lexer" where
  "setChannel ch s = s\<lparr>channel := ch\<rparr>"

text \<open>\<^verbatim>\<open>Lexer::getCharIndex\<close>: \<^verbatim>\<open>(int)_input->index()\<close>.\<close>

definition getCharIndex :: "char_stream \<Rightarrow> c_int" where
  "getCharIndex c = ucast (index c)"

text \<open>\<^verbatim>\<open>Lexer::emit(Token *token)\<close>: the pointer is set to a live token.\<close>

definition emit_token :: "token \<Rightarrow> lexer \<Rightarrow> lexer" where
  "emit_token t s = s\<lparr>token := Some t, token_freed := False\<rparr>"

text \<open>\<^verbatim>\<open>Lexer::emit()\<close>.\<close>

definition emit :: "char_stream \<Rightarrow> lexer \<Rightarrow> token \<times> lexer" where
  "emit c s =
     (let t = create (type s) (text' s) (channel s) (tokenStartCharIndex s)
                (getCharIndex c - 1) (tokenStartLine s) (tokenStartCharPositionInLine s)
      in (t, emit_token t s))"

text \<open>
  \<^verbatim>\<open>Lexer::emitEOF\<close>, with its casts \<^verbatim>\<open>(int)_input->index()\<close> and \<^verbatim>\<open>(int)getLine()\<close>. It
  reads the token \<^verbatim>\<open>_token\<close> points to; of a destroyed token the model reads the contents
  it had (no call of the driver sets the end-of-input latch while the pointer is dangling).
\<close>

definition emitEOF :: "char_stream \<Rightarrow> lexer \<Rightarrow> token \<times> lexer" where
  "emitEOF c s =
     (let cpos =
            (case token s of
               None \<Rightarrow> getCharPositionInLine s
             | Some tk \<Rightarrow>
                 (let n = tk_stopIndex tk - tk_startIndex tk + 1
                  in tk_charPositionInLine tk + n));
          eof = create EOF [] DEFAULT_CHANNEL (ucast (index c)) (ucast (index c) - 1)
                  (ucast (getLine s)) cpos
      in (eof, emit_token eof s))"

text \<open>
  \<^verbatim>\<open>Lexer::getText\<close> and \<^verbatim>\<open>Lexer::setText\<close>. The engine's \<^verbatim>\<open>getText(_input)\<close> is the
  parameter \<open>interp_getText\<close>.
\<close>

definition getText ::
  "(char_stream option \<Rightarrow> wstring) \<Rightarrow> char_stream option \<Rightarrow> lexer \<Rightarrow> wstring" where
  "getText interp_getText inp s = (if text' s \<noteq> [] then text' s else interp_getText inp)"

definition setText :: "wstring \<Rightarrow> lexer \<Rightarrow> lexer" where
  "setText tx s = s\<lparr>text' := tx\<rparr>"

subsection \<open>Error display, notification and recovery\<close>

text \<open>\<^verbatim>\<open>std::to_wstring(int)\<close>: the decimal digits, after a minus sign for a negative value.\<close>

fun digits :: "nat \<Rightarrow> wstring" where
  "digits n = (if n < 10 then [48 + int n] else digits (n div 10) @ [48 + int (n mod 10)])"

definition to_wstring :: "int \<Rightarrow> wstring" where
  "to_wstring c = (if c < 0 then L ''-'' @ digits (nat (- c)) else digits (nat c))"

text \<open>
  \<^verbatim>\<open>Lexer::getErrorDisplay(int c)\<close>; \<open>10\<close>, \<open>9\<close> and \<open>13\<close> are \<^verbatim>\<open>L'\n'\<close>, \<^verbatim>\<open>L'\t'\<close> and
  \<^verbatim>\<open>L'\r'\<close>, and \<open>CHR 0x5C\<close> is the backslash.
\<close>

definition getErrorDisplay :: "int \<Rightarrow> wstring" where
  "getErrorDisplay c =
     (if c = EOF then L ''<EOF>''
      else if c = 10 then L [CHR 0x5C, CHR ''n'']
      else if c = 9 then L [CHR 0x5C, CHR ''t'']
      else if c = 13 then L [CHR 0x5C, CHR ''r'']
      else to_wstring c)"

text \<open>
  The buffer of a wide string seen through \<^verbatim>\<open>(char*)s.c_str()\<close>: every \<^verbatim>\<open>wchar_t\<close> is four
  bytes, the low byte first, and a \<^verbatim>\<open>char\<close> is a signed byte (the layout of the x86-64
  System V targets; with a \<^verbatim>\<open>wchar_t\<close> of two bytes the first two bytes of each
  character are the same).
\<close>

definition wchar_bytes :: "wchar \<Rightarrow> int list" where
  "wchar_bytes w =
     map (\<lambda>i. let b = (w div 256 ^ i) mod 256 in if b < 128 then b else b - 256)
       [0, 1, 2, 3]"

definition c_str :: "wstring \<Rightarrow> int list" where
  "c_str s = concat (map wchar_bytes s) @ [0, 0, 0, 0]"

text \<open>
  \<^verbatim>\<open>Lexer::getErrorDisplay(const std::wstring &s)\<close>: for every \<open>i\<close> below the length of
  \<open>s\<close>, the \<open>i\<close>-th \<^verbatim>\<open>char\<close> of the buffer is displayed.
\<close>

definition getErrorDisplay_wstring :: "wstring \<Rightarrow> wstring" where
  "getErrorDisplay_wstring s = concat (map getErrorDisplay (take (length s) (c_str s)))"

text \<open>\<^verbatim>\<open>Lexer::getCharErrorDisplay\<close>; \<open>CHR 0x27\<close> is the apostrophe.\<close>

definition getCharErrorDisplay :: "int \<Rightarrow> wstring" where
  "getCharErrorDisplay c = L [CHR 0x27] @ getErrorDisplay c @ L [CHR 0x27]"

text \<open>
  \<^verbatim>\<open>Lexer::notifyListeners\<close>: the one call of the listener dispatch, with the text of
  \<^verbatim>\<open>Interval(_tokenStartCharIndex, (int)_input->index())\<close> and the line cast to
  \<^verbatim>\<open>size_t\<close>.
\<close>

definition notifyListeners :: "char_stream \<Rightarrow> lexer \<Rightarrow> event" where
  "notifyListeners c s =
     (let tx = getText_span c (sint (tokenStartCharIndex s)) (sint (ucast (index c) :: c_int));
          msg = L ''token recognition error at: '' @ L [CHR 0x27]
                @ getErrorDisplay_wstring tx @ L [CHR 0x27]
      in SyntaxError (scast (tokenStartLine s)) (tokenStartCharPositionInLine s) msg)"

text \<open>\<^verbatim>\<open>Lexer::recover(const LexerNoViableAltException &)\<close>.\<close>

definition recover :: "char_stream \<Rightarrow> lexer \<Rightarrow> char_stream \<times> lexer" where
  "recover c s = (if LA1 c \<noteq> EOF then interp_consume c s else (c, s))"

subsection \<open>The token production loop\<close>

text \<open>
  The \<^verbatim>\<open>try\<close> block of \<^verbatim>\<open>nextToken\<close>: the call of the engine, and the handler of
  \<^verbatim>\<open>LexerNoViableAltException\<close>, which notifies the listeners, recovers and takes \<open>SKIP\<close>
  for the token type. Any other exception leaves the block. The result holds the token
  type, the cursor, the driver and the events of the block.
\<close>

definition try_match ::
  "env \<Rightarrow> char_stream \<Rightarrow> lexer \<Rightarrow>
     (exn \<times> char_stream \<times> lexer) + (int \<times> char_stream \<times> lexer \<times> event list)" where
  "try_match E c s =
     (case match E c s of
        (Inr ttype, c1, s1) \<Rightarrow> Inr (ttype, c1, s1, [])
      | (Inl e, c1, s1) \<Rightarrow>
          if e = LexerNoViableAltException then
            (case recover c1 s1 of
               (c2, s2) \<Rightarrow> Inr (SKIP, c2, s2, [notifyListeners c1 s1]))
          else Inl (e, c1, s1))"

text \<open>
  The two tests after the \<^verbatim>\<open>try\<close> block: the end-of-input latch and the adoption of
  the token type.
\<close>

definition settle :: "int \<Rightarrow> char_stream \<Rightarrow> lexer \<Rightarrow> lexer" where
  "settle ttype c s =
     (let s1 = (if LA1 c = EOF then s\<lparr>hitEOF := True\<rparr> else s)
      in if type s1 = INVALID_TYPE then s1\<lparr>type := ttype\<rparr> else s1)"

text \<open>
  The ways out of the \<^verbatim>\<open>do ... while (_type == MORE)\<close> loop and of the code after it:
  \<open>Restart\<close> is \<^verbatim>\<open>goto outerContinue\<close>, \<open>Return t\<close> is \<^verbatim>\<open>return _token\<close>, and
  \<open>Throw e\<close> is an exception that leaves \<^verbatim>\<open>nextToken\<close>.
\<close>

datatype signal =
  Restart
  | Return token
  | Throw exn

text \<open>
  One candidate: the inner loop, then \<^verbatim>\<open>if (_token == nullptr) emit(); return _token;\<close>.
  The loop need not end (an engine may answer \<open>MORE\<close> for ever); \<open>None\<close> is a run that does
  not return. \<open>evs\<close> holds the events so far.
\<close>

partial_function (option) candidate ::
  "env \<Rightarrow> event list \<Rightarrow> char_stream \<Rightarrow> lexer \<Rightarrow>
     (signal \<times> char_stream \<times> lexer \<times> event list) option" where
  "candidate E evs c s =
     (case try_match E c (s\<lparr>type := INVALID_TYPE\<rparr>) of
        Inl (e, c1, s1) \<Rightarrow> Some (Throw e, c1, s1, evs)
      | Inr (ttype, c1, s1, new) \<Rightarrow>
          (let s2 = settle ttype c1 s1 in
           if type s2 = SKIP then Some (Restart, c1, s2, evs @ new)
           else if type s2 = MORE then candidate E (evs @ new) c1 s2
           else
             (case token s2 of
                None \<Rightarrow> (case emit c1 s2 of (t, s3) \<Rightarrow> Some (Return t, c1, s3, evs @ new))
              | Some t \<Rightarrow> Some (Return t, c1, s2, evs @ new))))"

text \<open>
  The statements of a fresh candidate, between the label \<^verbatim>\<open>outerContinue\<close> and the
  inner loop, with the casts \<^verbatim>\<open>(int)_input->index()\<close> and \<^verbatim>\<open>(int)...->getLine()\<close>. They
  begin with \<^verbatim>\<open>delete _token; _token = nullptr;\<close>, which \<open>nextToken_loop\<close> lets run only on
  a pointer that is not dangling.
\<close>

definition start_candidate :: "char_stream \<Rightarrow> lexer \<Rightarrow> lexer" where
  "start_candidate c s =
     s\<lparr>token := None,
       token_freed := False,
       channel := DEFAULT_CHANNEL,
       tokenStartCharIndex := ucast (index c),
       tokenStartCharPositionInLine := getCharPositionInLine s,
       tokenStartLine := ucast (getLine s),
       text' := []\<rparr>"

text \<open>
  The \<^verbatim>\<open>while (true)\<close> loop from the label \<^verbatim>\<open>outerContinue\<close>. It need not return: an
  engine may skip for ever without consuming, and on a dangling pointer \<^verbatim>\<open>delete _token\<close>
  destroys the token a second time, which is undefined (the process is killed); for both
  the result is \<open>None\<close>.
\<close>

partial_function (option) nextToken_loop ::
  "env \<Rightarrow> event list \<Rightarrow> char_stream \<Rightarrow> lexer \<Rightarrow>
     ((exn + token) \<times> char_stream \<times> lexer \<times> event list) option" where
  "nextToken_loop E evs c s =
     (if hitEOF s then
        (case emitEOF c s of (t, s1) \<Rightarrow> Some (Inr t, c, s1, evs))
      else if dangling s then None
      else
        Option.bind (candidate E evs c (start_candidate c s))
          (\<lambda>(sig, c1, s1, evs1).
             case sig of
               Restart \<Rightarrow> nextToken_loop E evs1 c1 s1
             | Return t \<Rightarrow> Some (Inr t, c1, s1, evs1)
             | Throw e \<Rightarrow> Some (Inl e, c1, s1, evs1)))"

text \<open>
  \<^verbatim>\<open>Lexer::nextToken\<close>. Without a cursor it throws before any mark is taken.

  Modelled from the spec: \<^verbatim>\<open>finally\<close> (of \<^verbatim>\<open>CPPUtils.h\<close>) is not in the source file. It
  is a scoped acquisition: the object \<^verbatim>\<open>onExit\<close> runs its release when the scope of
  \<^verbatim>\<open>nextToken\<close> is left, by a \<^verbatim>\<open>return\<close> or by an exception, and not at the jump to
  \<^verbatim>\<open>outerContinue\<close>, which stays inside the scope.
\<close>

definition nextToken ::
  "env \<Rightarrow> char_stream option \<Rightarrow> lexer \<Rightarrow>
     ((exn + token) \<times> char_stream option \<times> lexer \<times> event list) option" where
  "nextToken E inp s =
     (case inp of
        None \<Rightarrow> Some (Inl IllegalStateException, None, s, [])
      | Some c \<Rightarrow>
          (case mark c of
             (tokenStartMarker, c0) \<Rightarrow>
               Option.bind (nextToken_loop E [Mark tokenStartMarker] c0 s)
                 (\<lambda>(r, c1, s1, evs).
                    Some (r, Some (release tokenStartMarker c1), s1,
                          evs @ [Release tokenStartMarker]))))"

text \<open>
  \<^verbatim>\<open>Lexer::getAllTokens\<close>; an exception of \<^verbatim>\<open>nextToken\<close> leaves it. The vector of the
  code holds the pointers \<^verbatim>\<open>nextToken\<close> has returned; the list holds the contents the
  tokens had when they were returned.
\<close>

partial_function (option) getAllTokens_loop ::
  "env \<Rightarrow> token list \<Rightarrow> (exn + token) \<times> char_stream option \<times> lexer \<times> event list \<Rightarrow>
     ((exn + token list) \<times> char_stream option \<times> lexer) option" where
  "getAllTokens_loop E tokens call =
     (case call of
        (Inl e, inp, s, evs) \<Rightarrow> Some (Inl e, inp, s)
      | (Inr t, inp, s, evs) \<Rightarrow>
          if tk_type t \<noteq> EOF then
            Option.bind (nextToken E inp s) (getAllTokens_loop E (tokens @ [t]))
          else Some (Inr tokens, inp, s))"

definition getAllTokens ::
  "env \<Rightarrow> char_stream option \<Rightarrow> lexer \<Rightarrow>
     ((exn + token list) \<times> char_stream option \<times> lexer) option" where
  "getAllTokens E inp s = Option.bind (nextToken E inp s) (getAllTokens_loop E [])"

declare candidate.simps [code]
declare nextToken_loop.simps [code]
declare getAllTokens_loop.simps [code]

subsection \<open>Notions the properties are stated with\<close>

text \<open>The events on the cursor's marks, as opposed to the notifications.\<close>

fun marks :: "event \<Rightarrow> bool" where
  "marks (Mark m) = True"
| "marks (Release m) = True"
| "marks (SyntaxError ln col msg) = False"

text \<open>The start position of the candidate: index, line and column.\<close>

definition start_of :: "lexer \<Rightarrow> c_int \<times> c_int \<times> c_int" where
  "start_of s = (tokenStartCharIndex s, tokenStartLine s, tokenStartCharPositionInLine s)"

text \<open>
  The calls of \<^verbatim>\<open>match\<close> that one candidate makes in its first \<open>n\<close> passes through the
  inner loop: the cursor and driver each call is made on. The list ends where the candidate
  leaves the loop.
\<close>

fun passes :: "env \<Rightarrow> nat \<Rightarrow> char_stream \<Rightarrow> lexer \<Rightarrow> (char_stream \<times> lexer) list" where
  "passes E 0 c s = []"
| "passes E (Suc n) c s =
     (c, s\<lparr>type := INVALID_TYPE\<rparr>) #
     (case try_match E c (s\<lparr>type := INVALID_TYPE\<rparr>) of
        Inl (e, c1, s1) \<Rightarrow> []
      | Inr (ttype, c1, s1, new) \<Rightarrow>
          (let s2 = settle ttype c1 s1 in
           if type s2 \<noteq> SKIP \<and> type s2 = MORE then passes E n c1 s2 else []))"

text \<open>
  A call of \<^verbatim>\<open>match\<close> that leaves the start position to the driver and installs no token
  of its own through \<^verbatim>\<open>emit(Token *)\<close>.
\<close>

definition kept_by :: "env \<Rightarrow> char_stream \<times> lexer \<Rightarrow> bool" where
  "kept_by E call \<longleftrightarrow>
     (case call of
        (c, s) \<Rightarrow>
          start_of (snd (snd (match E c s))) = start_of s \<and>
          token (snd (snd (match E c s))) = token s)"

text \<open>Nested pushes, and as many pops.\<close>

fun pushModes :: "int list \<Rightarrow> lexer \<Rightarrow> lexer" where
  "pushModes [] s = s"
| "pushModes (m # ms) s = pushModes ms (pushMode m s)"

fun popModes :: "nat \<Rightarrow> lexer \<Rightarrow> exn + lexer" where
  "popModes 0 s = Inr s"
| "popModes (Suc n) s =
     (case popMode s of Inl e \<Rightarrow> Inl e | Inr (m, s1) \<Rightarrow> popModes n s1)"

text \<open>The characters the cursor has not consumed yet.\<close>

definition remaining :: "char_stream \<Rightarrow> nat" where
  "remaining c = length (data c) - p c"

text \<open>
  The first \<open>n\<close> calls of \<^verbatim>\<open>nextToken\<close> in a row, when each of them returns a token that
  is not of type \<open>EOF\<close>: the tokens in the order of the calls, and the cursor and driver
  after the last call.
\<close>

fun successive ::
  "env \<Rightarrow> nat \<Rightarrow> char_stream option \<Rightarrow> lexer \<Rightarrow>
     (token list \<times> char_stream option \<times> lexer) option" where
  "successive E 0 inp s = Some ([], inp, s)"
| "successive E (Suc n) inp s =
     (case nextToken E inp s of
        Some (Inr t, inp1, s1, evs) \<Rightarrow>
          if tk_type t \<noteq> EOF then
            map_option (\<lambda>(ts, rest). (t # ts, rest)) (successive E n inp1 s1)
          else None
      | _ \<Rightarrow> None)"

text \<open>
  The call of \<^verbatim>\<open>nextToken\<close> after the first \<open>n\<close> calls makes forward progress: when
  these \<open>n\<close> calls, from cursor \<open>c\<close> and driver \<open>s\<close>, have returned tokens other than
  \<open>EOF\<close>, the next call returns a token, and the token has the type \<open>EOF\<close> or the
  cursor has fewer characters left than before that call.
\<close>

definition progress_step :: "env \<Rightarrow> nat \<Rightarrow> char_stream \<Rightarrow> lexer \<Rightarrow> bool" where
  "progress_step E n c s \<longleftrightarrow>
     (case successive E n (Some c) s of
        None \<Rightarrow> True
      | Some (ts, inp1, s1) \<Rightarrow>
          (case (inp1, nextToken E inp1 s1) of
             (Some c1, Some (Inr t, Some c', s', evs)) \<Rightarrow>
               tk_type t = EOF \<or> remaining c' < remaining c1
           | _ \<Rightarrow> False))"

text \<open>
  \<^verbatim>\<open>nextToken\<close> makes forward progress on the input of cursor \<open>c\<close>, from driver \<open>s\<close>:
  every call of the row does.
\<close>

definition progresses_on :: "env \<Rightarrow> char_stream \<Rightarrow> lexer \<Rightarrow> bool" where
  "progresses_on E c s \<longleftrightarrow> (\<forall>n. progress_step E n c s)"

text \<open>
  A condition on the engine alone that is enough for it on every input: a match that
  returns has consumed input, or it stood at the end of input, returned the type \<open>EOF\<close>
  and changed nothing; a match that throws throws \<^verbatim>\<open>LexerNoViableAltException\<close>, has set
  no token type and has not moved the cursor backwards; and no match leaves a dangling
  token pointer where it found none.
\<close>

definition engine_progress :: "env \<Rightarrow> bool" where
  "engine_progress E \<longleftrightarrow>
     (\<forall>c s. case match E c s of
         (Inr ty, c1, s1) \<Rightarrow>
           (\<not> dangling s \<longrightarrow> \<not> dangling s1) \<and>
           (remaining c1 < remaining c \<or> (LA1 c = EOF \<and> ty = EOF \<and> c1 = c \<and> s1 = s))
       | (Inl e, c1, s1) \<Rightarrow>
           (\<not> dangling s \<longrightarrow> \<not> dangling s1) \<and>
           e = LexerNoViableAltException \<and> type s1 = type s \<and> remaining c1 \<le> remaining c)"

subsection \<open>A small lexer for the examples\<close>

text \<open>
  \<^verbatim>\<open>Lexer::InitializeInstanceFields\<close>, with the engine at the first line and column.
\<close>

definition InitializeInstanceFields :: lexer where
  "InitializeInstanceFields =
     \<lparr>token = None, token_freed = False, type = 0, channel = 0, tokenStartCharIndex = - 1,
      tokenStartCharPositionInLine = 0, tokenStartLine = 0, text' = [], hitEOF = False,
      mode = DEFAULT_MODE, modeStack = [], line = 1, charPositionInLine = 0\<rparr>"

definition cursor :: "string \<Rightarrow> char_stream" where
  "cursor cs = \<lparr>data = L cs, p = 0, markers = []\<rparr>"

text \<open>
  An engine for a grammar of four rules: the letter \<open>a\<close> (code 97) is a token of type 1,
  a blank (32) is skipped, a plus sign (43) continues with \<^verbatim>\<open>more()\<close>, and the end of
  input gives the type \<open>EOF\<close>; nothing else is viable.
\<close>

definition demo_match :: "char_stream \<Rightarrow> lexer \<Rightarrow> (exn + int) \<times> char_stream \<times> lexer" where
  "demo_match c s =
     (if LA1 c = EOF then (Inr EOF, c, s)
      else if LA1 c = 97 then (case interp_consume c s of (c1, s1) \<Rightarrow> (Inr 1, c1, s1))
      else if LA1 c = 32 then (case interp_consume c s of (c1, s1) \<Rightarrow> (Inr 2, c1, skip s1))
      else if LA1 c = 43 then (case interp_consume c s of (c1, s1) \<Rightarrow> (Inr 3, c1, more s1))
      else (Inl LexerNoViableAltException, c, s))"

definition demo :: env where
  "demo = \<lparr>match = demo_match\<rparr>"

text \<open>
  An engine whose action sets a token type and whose match then finds no viable
  alternative.
\<close>

definition typing_fails :: env where
  "typing_fails =
     \<lparr>match = (\<lambda>c s. (Inl LexerNoViableAltException, c, s\<lparr>type := 5\<rparr>))\<rparr>"

text \<open>
  An engine like the one above whose plus sign also moves the start index on by one, and
  one whose letter \<open>a\<close> installs a token of its own, with the start index 7, through
  \<^verbatim>\<open>emit(Token *)\<close>.
\<close>

definition shifting :: env where
  "shifting =
     \<lparr>match = (\<lambda>c s.
        if LA1 c = 43 then
          (case interp_consume c s of
             (c1, s1) \<Rightarrow>
               (Inr 3, c1, more (s1\<lparr>tokenStartCharIndex := tokenStartCharIndex s1 + 1\<rparr>)))
        else demo_match c s)\<rparr>"

definition emitting :: env where
  "emitting =
     \<lparr>match = (\<lambda>c s.
        if LA1 c = 97 then
          (case interp_consume c s of
             (c1, s1) \<Rightarrow> (Inr 1, c1, emit_token (create 1 [] 0 7 7 1 7) s1))
        else demo_match c s)\<rparr>"

text \<open>
  An engine that looks at the cursor's markers: the type of its token is one more than the
  number of marks that are not released.
\<close>

definition counting :: env where
  "counting =
     \<lparr>match = (\<lambda>c s.
        if LA1 c = EOF then (Inr EOF, c, s)
        else (Inr (1 + int (length (markers c))), consume_char c, s))\<rparr>"

text \<open>An engine whose actions pop a mode that was never pushed.\<close>

definition popping :: env where
  "popping =
     \<lparr>match = (\<lambda>c s. case popMode s of
                        Inl e \<Rightarrow> (Inl e, c, s)
                      | Inr (m, s1) \<Rightarrow> (Inr 1, consume_char c, s1))\<rparr>"

text \<open>
  An engine with modes: an opening parenthesis (40) is a token of type 2 and pushes mode 1,
  a closing one (41) is a token of type 3 and pops the mode, the letter \<open>a\<close> is a token of
  type 1, and the end of input gives the type \<open>EOF\<close>.
\<close>

definition bracket_match :: "char_stream \<Rightarrow> lexer \<Rightarrow> (exn + int) \<times> char_stream \<times> lexer" where
  "bracket_match c s =
     (if LA1 c = EOF then (Inr EOF, c, s)
      else if LA1 c = 40 then
        (case interp_consume c s of (c1, s1) \<Rightarrow> (Inr 2, c1, pushMode 1 s1))
      else if LA1 c = 41 then
        (case popMode s of
           Inl e \<Rightarrow> (Inl e, c, s)
         | Inr (m, s1) \<Rightarrow> (case interp_consume c s1 of (c2, s2) \<Rightarrow> (Inr 3, c2, s2)))
      else if LA1 c = 97 then (case interp_consume c s of (c1, s1) \<Rightarrow> (Inr 1, c1, s1))
      else (Inl LexerNoViableAltException, c, s))"

definition bracket :: env where
  "bracket = \<lparr>match = bracket_match\<rparr>"

section \<open>Properties\<close>

lemmas sentinel_defs =
  EOF_def INVALID_TYPE_def DEFAULT_CHANNEL_def DEFAULT_MODE_def MORE_def SKIP_def

declare digits.simps [simp del]

subsection \<open>Recognition failure\<close>

lemma try_match_not_NoViableAlt:
  "try_match E c s = Inl (e, c1, s1) \<Longrightarrow> e \<noteq> LexerNoViableAltException"
  by (auto simp: try_match_def split: prod.splits sum.splits if_splits)

lemma candidate_not_NoViableAlt:
  assumes "candidate E evs c s = Some y"
  shows "fst y \<noteq> Throw LexerNoViableAltException"
  using assms
proof (induction rule: candidate.raw_induct [rotated 1, consumes 1])
  case (1 candidate' E evs c s y)
  show ?case
  proof (cases "try_match E c (s\<lparr>type := INVALID_TYPE\<rparr>)")
    case (Inl a)
    with 1(2) try_match_not_NoViableAlt show ?thesis by (cases a) auto
  next
    case (Inr b)
    with 1 show ?thesis
      by (auto simp: Let_def split: if_splits option.splits prod.splits)
  qed
qed

lemma nextToken_loop_not_NoViableAlt:
  assumes "nextToken_loop E evs c s = Some y"
  shows "fst y \<noteq> Inl LexerNoViableAltException"
  using assms
proof (induction rule: nextToken_loop.raw_induct [rotated 1, consumes 1])
  case (1 loop E evs c s y)
  show ?case
  proof (cases "hitEOF s")
    case True
    with 1(2) show ?thesis by (auto split: prod.splits)
  next
    case False
    with 1(2) obtain sig c1 s1 evs1 where
      cand: "candidate E evs c (start_candidate c s) = Some (sig, c1, s1, evs1)" and
      rest: "(case sig of Restart \<Rightarrow> loop E evs1 c1 s1
              | Return t \<Rightarrow> Some (Inr t, c1, s1, evs1)
              | Throw e \<Rightarrow> Some (Inl e, c1, s1, evs1)) = Some y"
      by (auto simp: bind_eq_Some_conv split: if_splits)
    from candidate_not_NoViableAlt [OF cand] have "sig \<noteq> Throw LexerNoViableAltException"
      by simp
    with rest 1(1) show ?thesis by (cases sig) auto
  qed
qed

lemma nextToken_not_NoViableAlt:
  assumes "nextToken E inp s = Some (r, inp', s', evs)"
  shows "r \<noteq> Inl LexerNoViableAltException"
proof (cases inp)
  case None
  with assms show ?thesis by (auto simp: nextToken_def)
next
  case (Some c)
  with assms obtain k c0 c1 evs1 where
    "nextToken_loop E [Mark k] c0 s = Some (r, c1, s', evs1)"
    by (auto simp: nextToken_def bind_eq_Some_conv split: prod.splits)
  from nextToken_loop_not_NoViableAlt [OF this] show ?thesis by simp
qed

text \<open>
  The claim C1 says that after a recognition failure no token is emitted for the
  candidate. The code adopts the type \<open>SKIP\<close> only when \<^verbatim>\<open>_type\<close> is still
  \<^verbatim>\<open>Token::INVALID_TYPE\<close> (\<^verbatim>\<open>if (_type == Token::INVALID_TYPE) _type = ttype;\<close>). An engine
  whose action has set a type before the match fails keeps that type: on the input \<open>?\<close>
  the match throws \<^verbatim>\<open>LexerNoViableAltException\<close> with the type 5 set, the failure is
  reported and recovered from, and \<^verbatim>\<open>nextToken\<close> returns a token of type 5 for that very
  candidate.
\<close>

theorem no_viable_alt_token_counterexample:
  "match typing_fails (snd (mark (cursor ''?'')))
     ((start_candidate (snd (mark (cursor ''?''))) InitializeInstanceFields)
        \<lparr>type := INVALID_TYPE\<rparr>) =
     (Inl LexerNoViableAltException, snd (mark (cursor ''?'')),
      (start_candidate (snd (mark (cursor ''?''))) InitializeInstanceFields)\<lparr>type := 5\<rparr>) \<and>
   nextToken typing_fails (Some (cursor ''?'')) InitializeInstanceFields =
     Some (Inr (create 5 [] 0 0 0 1 0),
           Some \<lparr>data = L ''?'', p = 1, markers = []\<rparr>,
           \<lparr>token = Some (create 5 [] 0 0 0 1 0), token_freed = False, type = 5, channel = 0,
              tokenStartCharIndex = 0, tokenStartCharPositionInLine = 0, tokenStartLine = 1,
              text' = [], hitEOF = True, mode = 0, modeStack = [], line = 1,
              charPositionInLine = 1\<rparr>,
           [Mark (- 1),
            SyntaxError 1 0 (L ''token recognition error at: '' @ L [CHR 0x27] @ L ''63''
                             @ L [CHR 0x27]),
            Release (- 1)])"
  by code_simp

text \<open>
  C1, amended. When the engine's \<^verbatim>\<open>match\<close> throws \<^verbatim>\<open>LexerNoViableAltException\<close>, the
  \<^verbatim>\<open>try\<close> block of \<^verbatim>\<open>nextToken\<close> catches it: the listeners get exactly one notification,
  the cursor goes on by exactly one character unless its next character is the end of
  input, in which case it does not move, and the block yields the type \<open>SKIP\<close>. The
  candidate's type after the block is \<open>SKIP\<close> when the engine had set no token type
  before it failed, and the type the engine had set otherwise. In the first case the
  candidate ends with the restart signal, with the one notification as its only event and
  without making a token. No call of \<^verbatim>\<open>nextToken\<close>, for any engine, ends with this
  exception.
\<close>

theorem no_viable_alt_recovered:
  assumes fail:
      "match E c (s\<lparr>type := INVALID_TYPE\<rparr>) = (Inl LexerNoViableAltException, c1, s1)"
  shows "try_match E c (s\<lparr>type := INVALID_TYPE\<rparr>) =
           Inr (SKIP, fst (recover c1 s1), snd (recover c1 s1), [notifyListeners c1 s1]) \<and>
         \<not> marks (notifyListeners c1 s1) \<and>
         p (fst (recover c1 s1)) = (if LA1 c1 = EOF then p c1 else p c1 + 1) \<and>
         data (fst (recover c1 s1)) = data c1 \<and>
         type (settle SKIP (fst (recover c1 s1)) (snd (recover c1 s1))) =
           (if type s1 = INVALID_TYPE then SKIP else type s1) \<and>
         (type s1 = INVALID_TYPE \<longrightarrow>
            candidate E evs c s =
              Some (Restart, fst (recover c1 s1),
                    settle SKIP (fst (recover c1 s1)) (snd (recover c1 s1)),
                    evs @ [notifyListeners c1 s1]) \<and>
            token (settle SKIP (fst (recover c1 s1)) (snd (recover c1 s1))) = token s1) \<and>
         (\<forall>E' inp s0 r inp' s' evs'.
            nextToken E' inp s0 = Some (r, inp', s', evs') \<longrightarrow>
            r \<noteq> Inl LexerNoViableAltException)"
proof -
  have ty: "type (snd (recover c1 s1)) = type s1"
    by (simp add: recover_def interp_consume_def)
  have tm: "try_match E c (s\<lparr>type := INVALID_TYPE\<rparr>) =
      Inr (SKIP, fst (recover c1 s1), snd (recover c1 s1), [notifyListeners c1 s1])"
    using fail by (simp add: try_match_def split: prod.splits)
  have st: "type (settle SKIP (fst (recover c1 s1)) (snd (recover c1 s1))) =
      (if type s1 = INVALID_TYPE then SKIP else type s1)"
    using ty by (simp add: settle_def Let_def)
  have cand: "candidate E evs c s =
           Some (Restart, fst (recover c1 s1),
                 settle SKIP (fst (recover c1 s1)) (snd (recover c1 s1)),
                 evs @ [notifyListeners c1 s1])" if "type s1 = INVALID_TYPE"
    using that st by (subst candidate.simps) (simp add: tm Let_def)
  have nm: "\<not> marks (notifyListeners c1 s1)"
    by (simp add: notifyListeners_def Let_def)
  have pos: "p (fst (recover c1 s1)) = (if LA1 c1 = EOF then p c1 else p c1 + 1)"
    by (simp add: recover_def interp_consume_def consume_char_def)
  have dat: "data (fst (recover c1 s1)) = data c1"
    by (simp add: recover_def interp_consume_def consume_char_def)
  have tok: "token (settle SKIP (fst (recover c1 s1)) (snd (recover c1 s1))) = token s1"
    by (simp add: settle_def Let_def recover_def interp_consume_def)
  show ?thesis using tm nm pos dat st cand tok nextToken_not_NoViableAlt by blast
qed

text \<open>
  An example: the engine of the small lexer fails on the question mark at the start of the
  input \<open>?a\<close>, under the mark \<^verbatim>\<open>nextToken\<close> has taken. One error is reported for line 1,
  column 0, with the question mark shown as 63, the cursor is moved past it, no token is
  made for it, and the call returns the token of the letter after it.
\<close>

lemma demo_fails:
  "match demo (snd (mark (cursor ''?a'')))
     ((start_candidate (snd (mark (cursor ''?a''))) InitializeInstanceFields)
        \<lparr>type := INVALID_TYPE\<rparr>) =
     (Inl LexerNoViableAltException, \<lparr>data = L ''?a'', p = 0, markers = [- 1]\<rparr>,
      \<lparr>token = None, token_freed = False, type = INVALID_TYPE, channel = 0,
         tokenStartCharIndex = 0, tokenStartCharPositionInLine = 0, tokenStartLine = 1,
         text' = [], hitEOF = False, mode = 0, modeStack = [], line = 1,
         charPositionInLine = 0\<rparr>)"
  by code_simp

lemma demo_recovers:
  "recover \<lparr>data = L ''?a'', p = 0, markers = [- 1]\<rparr>
      \<lparr>token = None, token_freed = False, type = INVALID_TYPE, channel = 0,
         tokenStartCharIndex = 0, tokenStartCharPositionInLine = 0, tokenStartLine = 1,
         text' = [], hitEOF = False, mode = 0, modeStack = [], line = 1,
         charPositionInLine = 0\<rparr> =
     (\<lparr>data = L ''?a'', p = 1, markers = [- 1]\<rparr>,
      \<lparr>token = None, token_freed = False, type = INVALID_TYPE, channel = 0,
         tokenStartCharIndex = 0, tokenStartCharPositionInLine = 0, tokenStartLine = 1,
         text' = [], hitEOF = False, mode = 0, modeStack = [], line = 1,
         charPositionInLine = 1\<rparr>) \<and>
   settle SKIP \<lparr>data = L ''?a'', p = 1, markers = [- 1]\<rparr>
      \<lparr>token = None, token_freed = False, type = INVALID_TYPE, channel = 0,
         tokenStartCharIndex = 0, tokenStartCharPositionInLine = 0, tokenStartLine = 1,
         text' = [], hitEOF = False, mode = 0, modeStack = [], line = 1,
         charPositionInLine = 1\<rparr> =
      \<lparr>token = None, token_freed = False, type = SKIP, channel = 0,
         tokenStartCharIndex = 0, tokenStartCharPositionInLine = 0, tokenStartLine = 1,
         text' = [], hitEOF = False, mode = 0, modeStack = [], line = 1,
         charPositionInLine = 1\<rparr> \<and>
   notifyListeners \<lparr>data = L ''?a'', p = 0, markers = [- 1]\<rparr>
      \<lparr>token = None, token_freed = False, type = INVALID_TYPE, channel = 0,
         tokenStartCharIndex = 0, tokenStartCharPositionInLine = 0, tokenStartLine = 1,
         text' = [], hitEOF = False, mode = 0, modeStack = [], line = 1,
         charPositionInLine = 0\<rparr> =
     SyntaxError 1 0 (L ''token recognition error at: '' @ L [CHR 0x27] @ L ''63''
                      @ L [CHR 0x27]) \<and>
   LA1 \<lparr>data = L ''?a'', p = 0, markers = [- 1]\<rparr> \<noteq> EOF"
  by code_simp

lemma demo_error_then_token:
  "nextToken demo (Some (cursor ''?a'')) InitializeInstanceFields =
     Some (Inr (create 1 [] 0 1 1 1 1),
           Some \<lparr>data = L ''?a'', p = 2, markers = []\<rparr>,
           \<lparr>token = Some (create 1 [] 0 1 1 1 1), token_freed = False, type = 1, channel = 0,
              tokenStartCharIndex = 1, tokenStartCharPositionInLine = 1, tokenStartLine = 1,
              text' = [], hitEOF = True, mode = 0, modeStack = [], line = 1,
              charPositionInLine = 2\<rparr>,
           [Mark (- 1),
            SyntaxError 1 0 (L ''token recognition error at: '' @ L [CHR 0x27] @ L ''63''
                             @ L [CHR 0x27]),
            Release (- 1)])"
  by code_simp

theorem no_viable_alt_recovered_witness:
  "match demo (snd (mark (cursor ''?a'')))
     ((start_candidate (snd (mark (cursor ''?a''))) InitializeInstanceFields)
        \<lparr>type := INVALID_TYPE\<rparr>) =
     (Inl LexerNoViableAltException, \<lparr>data = L ''?a'', p = 0, markers = [- 1]\<rparr>,
      \<lparr>token = None, token_freed = False, type = INVALID_TYPE, channel = 0,
         tokenStartCharIndex = 0, tokenStartCharPositionInLine = 0, tokenStartLine = 1,
         text' = [], hitEOF = False, mode = 0, modeStack = [], line = 1,
         charPositionInLine = 0\<rparr>) \<and>
   candidate demo [Mark (- 1)] (snd (mark (cursor ''?a'')))
     (start_candidate (snd (mark (cursor ''?a''))) InitializeInstanceFields) =
     Some (Restart, \<lparr>data = L ''?a'', p = 1, markers = [- 1]\<rparr>,
           \<lparr>token = None, token_freed = False, type = SKIP, channel = 0,
              tokenStartCharIndex = 0, tokenStartCharPositionInLine = 0, tokenStartLine = 1,
              text' = [], hitEOF = False, mode = 0, modeStack = [], line = 1,
              charPositionInLine = 1\<rparr>,
           [Mark (- 1),
            SyntaxError 1 0 (L ''token recognition error at: '' @ L [CHR 0x27] @ L ''63''
                             @ L [CHR 0x27])]) \<and>
   nextToken demo (Some (cursor ''?a'')) InitializeInstanceFields =
     Some (Inr (create 1 [] 0 1 1 1 1),
           Some \<lparr>data = L ''?a'', p = 2, markers = []\<rparr>,
           \<lparr>token = Some (create 1 [] 0 1 1 1 1), token_freed = False, type = 1, channel = 0,
              tokenStartCharIndex = 1, tokenStartCharPositionInLine = 1, tokenStartLine = 1,
              text' = [], hitEOF = True, mode = 0, modeStack = [], line = 1,
              charPositionInLine = 2\<rparr>,
           [Mark (- 1),
            SyntaxError 1 0 (L ''token recognition error at: '' @ L [CHR 0x27] @ L ''63''
                             @ L [CHR 0x27]),
            Release (- 1)]) \<and>
   Inr (create 1 [] 0 1 1 1 1) \<noteq> (Inl LexerNoViableAltException :: exn + token)"
proof -
  note inst = no_viable_alt_recovered [OF demo_fails, of "[Mark (- 1)]"]
  have ty: "type \<lparr>token = None, token_freed = False, type = INVALID_TYPE, channel = 0,
         tokenStartCharIndex = 0, tokenStartCharPositionInLine = 0, tokenStartLine = 1,
         text' = [], hitEOF = False, mode = 0, modeStack = [], line = 1,
         charPositionInLine = 0\<rparr> = INVALID_TYPE"
    by simp
  from inst ty have
    "candidate demo [Mark (- 1)] (snd (mark (cursor ''?a'')))
       (start_candidate (snd (mark (cursor ''?a''))) InitializeInstanceFields) =
     Some (Restart,
       fst (recover \<lparr>data = L ''?a'', p = 0, markers = [- 1]\<rparr>
         \<lparr>token = None, token_freed = False, type = INVALID_TYPE, channel = 0,
           tokenStartCharIndex = 0, tokenStartCharPositionInLine = 0, tokenStartLine = 1,
           text' = [], hitEOF = False, mode = 0, modeStack = [], line = 1,
           charPositionInLine = 0\<rparr>),
       settle SKIP
         (fst (recover \<lparr>data = L ''?a'', p = 0, markers = [- 1]\<rparr>
           \<lparr>token = None, token_freed = False, type = INVALID_TYPE, channel = 0,
             tokenStartCharIndex = 0, tokenStartCharPositionInLine = 0, tokenStartLine = 1,
             text' = [], hitEOF = False, mode = 0, modeStack = [], line = 1,
             charPositionInLine = 0\<rparr>))
         (snd (recover \<lparr>data = L ''?a'', p = 0, markers = [- 1]\<rparr>
           \<lparr>token = None, token_freed = False, type = INVALID_TYPE, channel = 0,
             tokenStartCharIndex = 0, tokenStartCharPositionInLine = 0, tokenStartLine = 1,
             text' = [], hitEOF = False, mode = 0, modeStack = [], line = 1,
             charPositionInLine = 0\<rparr>)),
       [Mark (- 1)] @
       [notifyListeners \<lparr>data = L ''?a'', p = 0, markers = [- 1]\<rparr>
         \<lparr>token = None, token_freed = False, type = INVALID_TYPE, channel = 0,
           tokenStartCharIndex = 0, tokenStartCharPositionInLine = 0, tokenStartLine = 1,
           text' = [], hitEOF = False, mode = 0, modeStack = [], line = 1,
           charPositionInLine = 0\<rparr>])"
    by blast
  then have run:
    "candidate demo [Mark (- 1)] (snd (mark (cursor ''?a'')))
       (start_candidate (snd (mark (cursor ''?a''))) InitializeInstanceFields) =
     Some (Restart, \<lparr>data = L ''?a'', p = 1, markers = [- 1]\<rparr>,
           \<lparr>token = None, token_freed = False, type = SKIP, channel = 0,
              tokenStartCharIndex = 0, tokenStartCharPositionInLine = 0, tokenStartLine = 1,
              text' = [], hitEOF = False, mode = 0, modeStack = [], line = 1,
              charPositionInLine = 1\<rparr>,
           [Mark (- 1),
            SyntaxError 1 0 (L ''token recognition error at: '' @ L [CHR 0x27] @ L ''63''
                             @ L [CHR 0x27])])"
    unfolding demo_recovers [THEN conjunct1] fst_conv snd_conv
      demo_recovers [THEN conjunct2, THEN conjunct1]
      demo_recovers [THEN conjunct2, THEN conjunct2, THEN conjunct1]
    by simp
  from inst demo_error_then_token have
    "Inr (create 1 [] 0 1 1 1 1) \<noteq> (Inl LexerNoViableAltException :: exn + token)"
    by blast
  with demo_fails run demo_error_then_token show ?thesis by blast
qed

subsection \<open>The end-of-input token\<close>

lemma sint_ucast_small:
  fixes w :: "64 word"
  assumes "uint w < 2 ^ 31"
  shows "sint (ucast w :: 32 word) = uint w"
proof -
  have "sint (ucast w :: 32 word) = signed_take_bit 31 (uint w)"
    by (simp add: signed_ucast_eq)
  also have "\<dots> = uint w"
  proof (rule signed_take_bit_int_eq_self)
    have "(- (2 ^ 31) :: int) \<le> 0" by simp
    also have "0 \<le> uint w" by simp
    finally show "- (2 ^ 31) \<le> uint w" .
    show "uint w < 2 ^ 31" using assms .
  qed
  finally show ?thesis .
qed

lemma sint_ucast_small_pred:
  fixes w :: "64 word"
  assumes "uint w < 2 ^ 31"
  shows "sint ((ucast w :: 32 word) - 1) = uint w - 1"
proof -
  have "sint ((ucast w :: 32 word) - 1) =
      signed_take_bit 31 (sint (ucast w :: 32 word) - sint (1 :: 32 word))"
    by (simp add: sint_word_ariths)
  also have "\<dots> = signed_take_bit 31 (uint w - 1)"
    using assms by (simp add: sint_ucast_small)
  also have "\<dots> = uint w - 1"
  proof (rule signed_take_bit_int_eq_self)
    have "(- (2 ^ 31) :: int) \<le> 0 - 1" by simp
    also have "0 - 1 \<le> uint w - 1" by (rule diff_right_mono) simp
    finally show "- (2 ^ 31) \<le> uint w - 1" .
    show "uint w - 1 < 2 ^ 31" using assms by simp
  qed
  finally show ?thesis .
qed

text \<open>
  The claim C2 says that the line of the end-of-input token equals the engine's current
  line, and its indices the cursor's index. The engine's line and the cursor's index are
  of type \<^verbatim>\<open>size_t\<close>, the token's fields of type \<^verbatim>\<open>int\<close>, and \<^verbatim>\<open>emitEOF\<close> casts:
  \<^verbatim>\<open>(int)getLine()\<close>, \<^verbatim>\<open>(int)_input->index()\<close>. After \<^verbatim>\<open>setLine(4294967297)\<close> the first
  call of \<^verbatim>\<open>nextToken\<close> on the empty input sets the end-of-input latch, the engine's line
  is still 4294967297, and the token \<^verbatim>\<open>emitEOF\<close> makes then has the line 1.
\<close>

theorem emitEOF_line_counterexample:
  "nextToken demo (Some (cursor '''')) (setLine 4294967297 InitializeInstanceFields) =
     Some (Inr (create EOF [] 0 0 (- 1) 1 0),
           Some (cursor ''''),
           \<lparr>token = Some (create EOF [] 0 0 (- 1) 1 0), token_freed = False, type = EOF,
              channel = 0, tokenStartCharIndex = 0, tokenStartCharPositionInLine = 0,
              tokenStartLine = 1, text' = [], hitEOF = True, mode = 0, modeStack = [],
              line = 4294967297, charPositionInLine = 0\<rparr>,
           [Mark (- 1), Release (- 1)]) \<and>
   uint (getLine
     \<lparr>token = Some (create EOF [] 0 0 (- 1) 1 0), token_freed = False, type = EOF,
        channel = 0, tokenStartCharIndex = 0, tokenStartCharPositionInLine = 0,
        tokenStartLine = 1, text' = [], hitEOF = True, mode = 0, modeStack = [],
        line = 4294967297, charPositionInLine = 0\<rparr>) = 4294967297 \<and>
   sint (tk_line (fst (emitEOF (cursor '''')
     \<lparr>token = Some (create EOF [] 0 0 (- 1) 1 0), token_freed = False, type = EOF,
        channel = 0, tokenStartCharIndex = 0, tokenStartCharPositionInLine = 0,
        tokenStartLine = 1, text' = [], hitEOF = True, mode = 0, modeStack = [],
        line = 4294967297, charPositionInLine = 0\<rparr>))) = 1"
  by code_simp

text \<open>
  C2, amended. The token made by \<^verbatim>\<open>emitEOF\<close> has the type \<open>EOF\<close> and no text. Its start
  index is the cursor's index cast to \<^verbatim>\<open>int\<close>, its stop index is one less, and its line
  is the engine's line cast to \<^verbatim>\<open>int\<close>; where the cursor's index is below \<open>2\<^sup>3\<^sup>1\<close> the
  start index equals it and the stop index equals the index minus one, and where the
  engine's line is below \<open>2\<^sup>3\<^sup>1\<close> the line equals it. The channel is the default channel
  whatever the driver's channel is. The column is the previous token's column plus that
  token's length (stop index minus start index plus one, in \<^verbatim>\<open>int\<close> arithmetic) when the
  driver holds a previous token, and the engine's column when it holds none. The token
  becomes the driver's token.
\<close>

theorem emitEOF_token:
  "tk_type (fst (emitEOF c s)) = EOF \<and>
   tk_text (fst (emitEOF c s)) = [] \<and>
   tk_startIndex (fst (emitEOF c s)) = ucast (index c) \<and>
   tk_stopIndex (fst (emitEOF c s)) = ucast (index c) - 1 \<and>
   tk_line (fst (emitEOF c s)) = ucast (getLine s) \<and>
   (uint (index c) < 2 ^ 31 \<longrightarrow>
      sint (tk_startIndex (fst (emitEOF c s))) = uint (index c) \<and>
      sint (tk_stopIndex (fst (emitEOF c s))) = uint (index c) - 1) \<and>
   (uint (getLine s) < 2 ^ 31 \<longrightarrow>
      sint (tk_line (fst (emitEOF c s))) = uint (getLine s)) \<and>
   tk_channel (fst (emitEOF c s)) = DEFAULT_CHANNEL \<and>
   tk_charPositionInLine (fst (emitEOF c s)) =
     (case token s of
        None \<Rightarrow> getCharPositionInLine s
      | Some prev \<Rightarrow>
          tk_charPositionInLine prev + (tk_stopIndex prev - tk_startIndex prev + 1)) \<and>
   token (snd (emitEOF c s)) = Some (fst (emitEOF c s))"
proof -
  have fields:
    "tk_type (fst (emitEOF c s)) = EOF"
    "tk_text (fst (emitEOF c s)) = []"
    "tk_startIndex (fst (emitEOF c s)) = ucast (index c)"
    "tk_stopIndex (fst (emitEOF c s)) = ucast (index c) - 1"
    "tk_line (fst (emitEOF c s)) = ucast (getLine s)"
    "tk_channel (fst (emitEOF c s)) = DEFAULT_CHANNEL"
    by (simp_all add: emitEOF_def create_def Let_def)
  have col: "tk_charPositionInLine (fst (emitEOF c s)) =
     (case token s of
        None \<Rightarrow> getCharPositionInLine s
      | Some prev \<Rightarrow>
          tk_charPositionInLine prev + (tk_stopIndex prev - tk_startIndex prev + 1))"
    by (simp add: emitEOF_def create_def Let_def split: option.splits)
  have tok: "token (snd (emitEOF c s)) = Some (fst (emitEOF c s))"
    by (simp add: emitEOF_def emit_token_def Let_def)
  show ?thesis
    unfolding fields using col tok sint_ucast_small sint_ucast_small_pred
    by (simp add: fields)
qed

text \<open>
  An example: on the input of four blanks, two plus signs and the letter \<open>a\<close> the first
  call of \<^verbatim>\<open>nextToken\<close> returns a token on the columns 4 to 6 and sets the end-of-input
  latch; after \<^verbatim>\<open>setChannel(1)\<close> the end-of-input token is at the index 7, on line 1,
  column 7 and on the default channel. On the input of the letter \<open>a\<close> and a blank, the
  second candidate skips the blank and sets the latch without a token; the end-of-input
  token has the engine's column 2.
\<close>

lemma demo_before_eof:
  "nextToken demo (Some (cursor ''    ++a'')) InitializeInstanceFields =
     Some (Inr (create 1 [] 0 4 6 1 4),
           Some \<lparr>data = L ''    ++a'', p = 7, markers = []\<rparr>,
           \<lparr>token = Some (create 1 [] 0 4 6 1 4), token_freed = False, type = 1, channel = 0,
              tokenStartCharIndex = 4, tokenStartCharPositionInLine = 4, tokenStartLine = 1,
              text' = [], hitEOF = True, mode = 0, modeStack = [], line = 1,
              charPositionInLine = 7\<rparr>,
           [Mark (- 1), Release (- 1)])"
  by code_simp

lemma demo_skip_to_eof:
  "candidate demo [Mark (- 1)] \<lparr>data = L ''a '', p = 1, markers = [- 1]\<rparr>
     (start_candidate \<lparr>data = L ''a '', p = 1, markers = [- 1]\<rparr>
        \<lparr>token = Some (create 1 [] 0 0 0 1 0), token_freed = False, type = 1, channel = 0,
           tokenStartCharIndex = 0, tokenStartCharPositionInLine = 0, tokenStartLine = 1,
           text' = [], hitEOF = False, mode = 0, modeStack = [], line = 1,
           charPositionInLine = 1\<rparr>) =
     Some (Restart, \<lparr>data = L ''a '', p = 2, markers = [- 1]\<rparr>,
           \<lparr>token = None, token_freed = False, type = SKIP, channel = 0,
              tokenStartCharIndex = 1, tokenStartCharPositionInLine = 1, tokenStartLine = 1,
              text' = [], hitEOF = True, mode = 0, modeStack = [], line = 1,
              charPositionInLine = 2\<rparr>,
           [Mark (- 1)])"
  by code_simp

theorem emitEOF_token_witness:
  "nextToken demo (Some (cursor ''    ++a'')) InitializeInstanceFields =
     Some (Inr (create 1 [] 0 4 6 1 4),
           Some \<lparr>data = L ''    ++a'', p = 7, markers = []\<rparr>,
           \<lparr>token = Some (create 1 [] 0 4 6 1 4), token_freed = False, type = 1, channel = 0,
              tokenStartCharIndex = 4, tokenStartCharPositionInLine = 4, tokenStartLine = 1,
              text' = [], hitEOF = True, mode = 0, modeStack = [], line = 1,
              charPositionInLine = 7\<rparr>,
           [Mark (- 1), Release (- 1)]) \<and>
   uint (index \<lparr>data = L ''    ++a'', p = 7, markers = []\<rparr>) < 2 ^ 31 \<and>
   uint (getLine (setChannel 1
     \<lparr>token = Some (create 1 [] 0 4 6 1 4), token_freed = False, type = 1, channel = 0,
        tokenStartCharIndex = 4, tokenStartCharPositionInLine = 4, tokenStartLine = 1,
        text' = [], hitEOF = True, mode = 0, modeStack = [], line = 1,
        charPositionInLine = 7\<rparr>)) < 2 ^ 31 \<and>
   fst (emitEOF \<lparr>data = L ''    ++a'', p = 7, markers = []\<rparr>
     (setChannel 1
       \<lparr>token = Some (create 1 [] 0 4 6 1 4), token_freed = False, type = 1, channel = 0,
          tokenStartCharIndex = 4, tokenStartCharPositionInLine = 4, tokenStartLine = 1,
          text' = [], hitEOF = True, mode = 0, modeStack = [], line = 1,
          charPositionInLine = 7\<rparr>)) = create EOF [] 0 7 6 1 7 \<and>
   fst (emitEOF \<lparr>data = L ''a '', p = 2, markers = [- 1]\<rparr>
     \<lparr>token = None, token_freed = False, type = SKIP, channel = 0,
        tokenStartCharIndex = 1, tokenStartCharPositionInLine = 1, tokenStartLine = 1,
        text' = [], hitEOF = True, mode = 0, modeStack = [], line = 1,
        charPositionInLine = 2\<rparr>) = create EOF [] 0 2 1 1 2"
proof -
  note a = emitEOF_token [of "\<lparr>data = L ''    ++a'', p = 7, markers = []\<rparr>"
    "setChannel 1
       \<lparr>token = Some (create 1 [] 0 4 6 1 4), token_freed = False, type = 1, channel = 0,
          tokenStartCharIndex = 4, tokenStartCharPositionInLine = 4, tokenStartLine = 1,
          text' = [], hitEOF = True, mode = 0, modeStack = [], line = 1,
          charPositionInLine = 7\<rparr>"]
  note b = emitEOF_token [of "\<lparr>data = L ''a '', p = 2, markers = [- 1]\<rparr>"
    "\<lparr>token = None, token_freed = False, type = SKIP, channel = 0,
        tokenStartCharIndex = 1, tokenStartCharPositionInLine = 1, tokenStartLine = 1,
        text' = [], hitEOF = True, mode = 0, modeStack = [], line = 1,
        charPositionInLine = 2\<rparr>"]
  have i: "uint (index \<lparr>data = L ''    ++a'', p = 7, markers = []\<rparr>) < 2 ^ 31"
    by (simp add: index_def)
  have l: "uint (getLine (setChannel 1
     \<lparr>token = Some (create 1 [] 0 4 6 1 4), token_freed = False, type = 1, channel = 0,
        tokenStartCharIndex = 4, tokenStartCharPositionInLine = 4, tokenStartLine = 1,
        text' = [], hitEOF = True, mode = 0, modeStack = [], line = 1,
        charPositionInLine = 7\<rparr>)) < 2 ^ 31"
    by (simp add: getLine_def setChannel_def)
  have ea: "fst (emitEOF \<lparr>data = L ''    ++a'', p = 7, markers = []\<rparr>
     (setChannel 1
       \<lparr>token = Some (create 1 [] 0 4 6 1 4), token_freed = False, type = 1, channel = 0,
          tokenStartCharIndex = 4, tokenStartCharPositionInLine = 4, tokenStartLine = 1,
          text' = [], hitEOF = True, mode = 0, modeStack = [], line = 1,
          charPositionInLine = 7\<rparr>)) = create EOF [] 0 7 6 1 7"
    using a
    by (intro token.equality)
      (simp_all add: create_def index_def getLine_def setChannel_def DEFAULT_CHANNEL_def)
  have eb: "fst (emitEOF \<lparr>data = L ''a '', p = 2, markers = [- 1]\<rparr>
     \<lparr>token = None, token_freed = False, type = SKIP, channel = 0,
        tokenStartCharIndex = 1, tokenStartCharPositionInLine = 1, tokenStartLine = 1,
        text' = [], hitEOF = True, mode = 0, modeStack = [], line = 1,
        charPositionInLine = 2\<rparr>) = create EOF [] 0 2 1 1 2"
    using b
    by (intro token.equality)
      (simp_all add: create_def index_def getLine_def getCharPositionInLine_def
        DEFAULT_CHANNEL_def)
  from demo_before_eof i l ea eb show ?thesis by blast
qed

lemma nextToken_hitEOF:
  "hitEOF s \<Longrightarrow>
     nextToken E (Some c) s =
       Some (Inr (fst (emitEOF c s)), Some c, snd (emitEOF c s),
             [Mark (fst (mark c)), Release (fst (mark c))])"
  apply (simp add: nextToken_def split: prod.splits)
  apply (subst nextToken_loop.simps)
  apply (auto simp: emitEOF_def Let_def mark_def release_def index_def emit_token_def)
  done

lemma emitEOF_again: "emitEOF c (snd (emitEOF c s)) = emitEOF c s"
  by (simp add: emitEOF_def Let_def emit_token_def create_def getLine_def
      getCharPositionInLine_def split: option.splits)

lemma hitEOF_emitEOF: "hitEOF (snd (emitEOF c s)) = hitEOF s"
  by (simp add: emitEOF_def Let_def emit_token_def)

text \<open>
  C3. With the end-of-input latch set, \<^verbatim>\<open>nextToken\<close> returns the token of \<^verbatim>\<open>emitEOF\<close>,
  of type \<open>EOF\<close>, between one mark and its release; the result is the same for every
  engine, so the engine is not asked. The call leaves the cursor where it was and the latch
  set, and from the driver it leaves, every further call returns the same token and leaves
  the same cursor and driver again.
\<close>

theorem nextToken_eof_idempotent:
  assumes "hitEOF s"
  shows "nextToken E (Some c) s =
           Some (Inr (fst (emitEOF c s)), Some c, snd (emitEOF c s),
                 [Mark (fst (mark c)), Release (fst (mark c))]) \<and>
         tk_type (fst (emitEOF c s)) = EOF \<and>
         nextToken E' (Some c) s = nextToken E (Some c) s \<and>
         hitEOF (snd (emitEOF c s)) \<and>
         nextToken E' (Some c) (snd (emitEOF c s)) =
           Some (Inr (fst (emitEOF c s)), Some c, snd (emitEOF c s),
                 [Mark (fst (mark c)), Release (fst (mark c))])"
proof -
  have "tk_type (fst (emitEOF c s)) = EOF"
    by (simp add: emitEOF_def create_def Let_def)
  with assms show ?thesis
    by (simp add: nextToken_hitEOF hitEOF_emitEOF emitEOF_again)
qed

text \<open>
  An example: the second and the third call on the input \<open>a\<close>, whose first call has
  returned the letter and set the latch, asked of two different engines.
\<close>

lemma demo_latch:
  "nextToken demo (Some (cursor ''a'')) InitializeInstanceFields =
     Some (Inr (create 1 [] 0 0 0 1 0),
           Some \<lparr>data = L ''a'', p = 1, markers = []\<rparr>,
           \<lparr>token = Some (create 1 [] 0 0 0 1 0), token_freed = False, type = 1, channel = 0,
              tokenStartCharIndex = 0, tokenStartCharPositionInLine = 0, tokenStartLine = 1,
              text' = [], hitEOF = True, mode = 0, modeStack = [], line = 1,
              charPositionInLine = 1\<rparr>,
           [Mark (- 1), Release (- 1)])"
  by code_simp

theorem nextToken_eof_idempotent_witness:
  "nextToken demo (Some (cursor ''a'')) InitializeInstanceFields =
     Some (Inr (create 1 [] 0 0 0 1 0),
           Some \<lparr>data = L ''a'', p = 1, markers = []\<rparr>,
           \<lparr>token = Some (create 1 [] 0 0 0 1 0), token_freed = False, type = 1, channel = 0,
              tokenStartCharIndex = 0, tokenStartCharPositionInLine = 0, tokenStartLine = 1,
              text' = [], hitEOF = True, mode = 0, modeStack = [], line = 1,
              charPositionInLine = 1\<rparr>,
           [Mark (- 1), Release (- 1)]) \<and>
   nextToken demo (Some \<lparr>data = L ''a'', p = 1, markers = []\<rparr>)
       \<lparr>token = Some (create 1 [] 0 0 0 1 0), token_freed = False, type = 1, channel = 0,
          tokenStartCharIndex = 0, tokenStartCharPositionInLine = 0, tokenStartLine = 1,
          text' = [], hitEOF = True, mode = 0, modeStack = [], line = 1,
          charPositionInLine = 1\<rparr> =
     Some (Inr (create EOF [] 0 1 0 1 1),
           Some \<lparr>data = L ''a'', p = 1, markers = []\<rparr>,
           \<lparr>token = Some (create EOF [] 0 1 0 1 1), token_freed = False, type = 1, channel = 0,
              tokenStartCharIndex = 0, tokenStartCharPositionInLine = 0, tokenStartLine = 1,
              text' = [], hitEOF = True, mode = 0, modeStack = [], line = 1,
              charPositionInLine = 1\<rparr>,
           [Mark (- 1), Release (- 1)]) \<and>
   nextToken popping (Some \<lparr>data = L ''a'', p = 1, markers = []\<rparr>)
       \<lparr>token = Some (create EOF [] 0 1 0 1 1), token_freed = False, type = 1, channel = 0,
          tokenStartCharIndex = 0, tokenStartCharPositionInLine = 0, tokenStartLine = 1,
          text' = [], hitEOF = True, mode = 0, modeStack = [], line = 1,
          charPositionInLine = 1\<rparr> =
     Some (Inr (create EOF [] 0 1 0 1 1),
           Some \<lparr>data = L ''a'', p = 1, markers = []\<rparr>,
           \<lparr>token = Some (create EOF [] 0 1 0 1 1), token_freed = False, type = 1, channel = 0,
              tokenStartCharIndex = 0, tokenStartCharPositionInLine = 0, tokenStartLine = 1,
              text' = [], hitEOF = True, mode = 0, modeStack = [], line = 1,
              charPositionInLine = 1\<rparr>,
           [Mark (- 1), Release (- 1)])"
proof -
  have h: "hitEOF \<lparr>token = Some (create 1 [] 0 0 0 1 0), token_freed = False, type = 1,
          channel = 0, tokenStartCharIndex = 0, tokenStartCharPositionInLine = 0,
          tokenStartLine = 1, text' = [], hitEOF = True, mode = 0, modeStack = [], line = 1,
          charPositionInLine = 1\<rparr>"
    by simp
  have e: "emitEOF \<lparr>data = L ''a'', p = 1, markers = []\<rparr>
       \<lparr>token = Some (create 1 [] 0 0 0 1 0), token_freed = False, type = 1, channel = 0,
          tokenStartCharIndex = 0, tokenStartCharPositionInLine = 0, tokenStartLine = 1,
          text' = [], hitEOF = True, mode = 0, modeStack = [], line = 1,
          charPositionInLine = 1\<rparr> =
      (create EOF [] 0 1 0 1 1,
       \<lparr>token = Some (create EOF [] 0 1 0 1 1), token_freed = False, type = 1, channel = 0,
          tokenStartCharIndex = 0, tokenStartCharPositionInLine = 0, tokenStartLine = 1,
          text' = [], hitEOF = True, mode = 0, modeStack = [], line = 1,
          charPositionInLine = 1\<rparr>)"
    by code_simp
  have m: "fst (mark \<lparr>data = L ''a'', p = 1, markers = []\<rparr>) = - 1"
    by (simp add: mark_def Let_def)
  from nextToken_eof_idempotent [OF h, of demo "\<lparr>data = L ''a'', p = 1, markers = []\<rparr>" popping]
  have
    "nextToken demo (Some \<lparr>data = L ''a'', p = 1, markers = []\<rparr>)
       \<lparr>token = Some (create 1 [] 0 0 0 1 0), token_freed = False, type = 1, channel = 0,
          tokenStartCharIndex = 0, tokenStartCharPositionInLine = 0, tokenStartLine = 1,
          text' = [], hitEOF = True, mode = 0, modeStack = [], line = 1,
          charPositionInLine = 1\<rparr> =
     Some (Inr (create EOF [] 0 1 0 1 1),
           Some \<lparr>data = L ''a'', p = 1, markers = []\<rparr>,
           \<lparr>token = Some (create EOF [] 0 1 0 1 1), token_freed = False, type = 1, channel = 0,
              tokenStartCharIndex = 0, tokenStartCharPositionInLine = 0, tokenStartLine = 1,
              text' = [], hitEOF = True, mode = 0, modeStack = [], line = 1,
              charPositionInLine = 1\<rparr>,
           [Mark (- 1), Release (- 1)]) \<and>
     nextToken popping (Some \<lparr>data = L ''a'', p = 1, markers = []\<rparr>)
       \<lparr>token = Some (create EOF [] 0 1 0 1 1), token_freed = False, type = 1, channel = 0,
          tokenStartCharIndex = 0, tokenStartCharPositionInLine = 0, tokenStartLine = 1,
          text' = [], hitEOF = True, mode = 0, modeStack = [], line = 1,
          charPositionInLine = 1\<rparr> =
     Some (Inr (create EOF [] 0 1 0 1 1),
           Some \<lparr>data = L ''a'', p = 1, markers = []\<rparr>,
           \<lparr>token = Some (create EOF [] 0 1 0 1 1), token_freed = False, type = 1, channel = 0,
              tokenStartCharIndex = 0, tokenStartCharPositionInLine = 0, tokenStartLine = 1,
              text' = [], hitEOF = True, mode = 0, modeStack = [], line = 1,
              charPositionInLine = 1\<rparr>,
           [Mark (- 1), Release (- 1)])"
    unfolding e m fst_conv snd_conv by blast
  with demo_latch show ?thesis by blast
qed

subsection \<open>The mark on the cursor\<close>

lemma notifyListeners_marks: "\<not> marks (notifyListeners c s)"
  by (simp add: notifyListeners_def Let_def)

lemma try_match_events:
  "try_match E c s = Inr (ty, c1, s1, new) \<Longrightarrow> filter marks new = []"
  by (auto simp: try_match_def notifyListeners_marks split: prod.splits sum.splits if_splits)

lemma candidate_events:
  assumes "candidate E evs c s = Some y"
  shows "\<exists>new. snd (snd (snd y)) = evs @ new \<and> filter marks new = []"
  using assms
proof (induction rule: candidate.raw_induct [rotated 1, consumes 1])
  case (1 candidate' E evs c s y)
  show ?case
  proof (cases "try_match E c (s\<lparr>type := INVALID_TYPE\<rparr>)")
    case (Inl a)
    with 1(2) show ?thesis by (auto split: prod.splits)
  next
    case (Inr b)
    obtain ty c1 s1 new where b: "b = (ty, c1, s1, new)" by (cases b) auto
    have new: "filter marks new = []" using Inr b try_match_events by blast
    show ?thesis
    proof (cases "type (settle ty c1 s1) = MORE \<and> type (settle ty c1 s1) \<noteq> SKIP")
      case True
      with 1(2) Inr b have "candidate' E (evs @ new) c1 (settle ty c1 s1) = Some y"
        by (simp add: Let_def)
      from 1(1) [OF this] obtain new' where
        "snd (snd (snd y)) = (evs @ new) @ new'" "filter marks new' = []" by blast
      with new show ?thesis by (intro exI [of _ "new @ new'"]) simp
    next
      case False
      with 1(2) Inr b new show ?thesis
        by (auto simp: Let_def split: if_splits option.splits prod.splits)
    qed
  qed
qed

lemma nextToken_loop_events:
  assumes "nextToken_loop E evs c s = Some y"
  shows "\<exists>new. snd (snd (snd y)) = evs @ new \<and> filter marks new = []"
  using assms
proof (induction rule: nextToken_loop.raw_induct [rotated 1, consumes 1])
  case (1 loop E evs c s y)
  show ?case
  proof (cases "hitEOF s")
    case True
    with 1(2) show ?thesis by (auto split: prod.splits)
  next
    case False
    with 1(2) obtain sig c1 s1 evs1 where
      cand: "candidate E evs c (start_candidate c s) = Some (sig, c1, s1, evs1)" and
      rest: "(case sig of Restart \<Rightarrow> loop E evs1 c1 s1
              | Return t \<Rightarrow> Some (Inr t, c1, s1, evs1)
              | Throw e \<Rightarrow> Some (Inl e, c1, s1, evs1)) = Some y"
      by (auto simp: bind_eq_Some_conv split: if_splits)
    from candidate_events [OF cand] obtain new where
      new: "evs1 = evs @ new" "filter marks new = []" by auto
    show ?thesis
    proof (cases sig)
      case Restart
      with rest have "loop E evs1 c1 s1 = Some y" by simp
      from 1(1) [OF this] obtain new' where
        "snd (snd (snd y)) = evs1 @ new'" "filter marks new' = []" by blast
      with new show ?thesis by (intro exI [of _ "new @ new'"]) simp
    next
      case (Return t)
      with rest new show ?thesis by auto
    next
      case (Throw e)
      with rest new show ?thesis by auto
    qed
  qed
qed

text \<open>
  C4. Let a call of \<^verbatim>\<open>nextToken\<close> on a cursor \<open>c\<close> end, with a token or with an
  exception. Then the loop of the call, restarts after \<open>SKIP\<close> and the end-of-input latch
  included, has run on the cursor that \<^verbatim>\<open>mark\<close> left, which holds the new marker on top
  of the markers of \<open>c\<close>; the cursor the call leaves is the one the loop left with
  exactly this marker released; the first event of the call is the mark, the last event is
  the release of the marker that this mark returned, and the events between them are
  notifications only. So where the loop has left the cursor's markers as they were, the
  call leaves the cursor with the markers of \<open>c\<close>. Without a cursor the call throws and
  no mark is taken.
\<close>

theorem nextToken_one_mark_one_release:
  assumes "nextToken E (Some c) s = Some (r, inp', s', evs)"
  shows "\<exists>c1 mid.
           nextToken_loop E [Mark (fst (mark c))] (snd (mark c)) s =
             Some (r, c1, s', Mark (fst (mark c)) # mid) \<and>
           markers (snd (mark c)) = fst (mark c) # markers c \<and>
           inp' = Some (release (fst (mark c)) c1) \<and>
           markers (release (fst (mark c)) c1) = remove1 (fst (mark c)) (markers c1) \<and>
           data (release (fst (mark c)) c1) = data c1 \<and>
           p (release (fst (mark c)) c1) = p c1 \<and>
           (markers c1 = markers (snd (mark c)) \<longrightarrow>
              markers (release (fst (mark c)) c1) = markers c) \<and>
           evs = Mark (fst (mark c)) # mid @ [Release (fst (mark c))] \<and>
           filter marks mid = [] \<and>
           filter marks evs = [Mark (fst (mark c)), Release (fst (mark c))] \<and>
           nextToken E None s = Some (Inl IllegalStateException, None, s, [])"
proof -
  obtain k c0 where m: "mark c = (k, c0)" by (cases "mark c")
  then have c0: "markers c0 = k # markers c" by (auto simp: mark_def Let_def)
  from assms m obtain c1 evs1 where
    loop: "nextToken_loop E [Mark k] c0 s = Some (r, c1, s', evs1)" and
    inp': "inp' = Some (release k c1)" and
    evs: "evs = evs1 @ [Release k]"
    by (auto simp: nextToken_def bind_eq_Some_conv)
  from nextToken_loop_events [OF loop] obtain mid where
    mid: "evs1 = [Mark k] @ mid" "filter marks mid = []" by auto
  have rel: "markers (release k c1) = remove1 k (markers c1)"
    "data (release k c1) = data c1" "p (release k c1) = p c1"
    by (simp_all add: release_def)
  have same: "markers c1 = markers c0 \<longrightarrow> markers (release k c1) = markers c"
    using c0 rel by simp
  have none: "nextToken E None s = Some (Inl IllegalStateException, None, s, [])"
    by (simp add: nextToken_def)
  have "nextToken_loop E [Mark k] c0 s = Some (r, c1, s', Mark k # mid) \<and>
        markers c0 = k # markers c \<and>
        inp' = Some (release k c1) \<and>
        markers (release k c1) = remove1 k (markers c1) \<and>
        data (release k c1) = data c1 \<and>
        p (release k c1) = p c1 \<and>
        (markers c1 = markers c0 \<longrightarrow> markers (release k c1) = markers c) \<and>
        evs = Mark k # mid @ [Release k] \<and>
        filter marks mid = [] \<and>
        filter marks evs = [Mark k, Release k] \<and>
        nextToken E None s = Some (Inl IllegalStateException, None, s, [])"
    using loop c0 inp' rel same evs mid none by simp
  then show ?thesis unfolding m fst_conv snd_conv by blast
qed

text \<open>
  An example: an engine that makes the number of unreleased marks the type of its token
  returns the type 2 for the letter \<open>a\<close> under \<^verbatim>\<open>nextToken\<close>, one more than on the same
  cursor outside it, and the call leaves the cursor without a marker. A second example
  has a restart and a notification: on the input \<open> ?a\<close> the blank is skipped, the
  question mark is reported and passed over, and the letter is the token. In a third an
  exception leaves the call: the engine pops a mode from the empty mode stack, and the
  mark is released all the same.
\<close>

lemma counting_under_mark:
  "nextToken counting (Some (cursor ''a'')) InitializeInstanceFields =
     Some (Inr (create 2 [] 0 0 0 1 0),
           Some \<lparr>data = L ''a'', p = 1, markers = []\<rparr>,
           \<lparr>token = Some (create 2 [] 0 0 0 1 0), token_freed = False, type = 2, channel = 0,
              tokenStartCharIndex = 0, tokenStartCharPositionInLine = 0, tokenStartLine = 1,
              text' = [], hitEOF = True, mode = 0, modeStack = [], line = 1,
              charPositionInLine = 0\<rparr>,
           [Mark (- 1), Release (- 1)])"
  by code_simp

lemma counting_outside:
  "fst (match counting (cursor ''a'') InitializeInstanceFields) = Inr 1"
  by code_simp

lemma demo_skip_error_token:
  "nextToken demo (Some (cursor '' ?a'')) InitializeInstanceFields =
     Some (Inr (create 1 [] 0 2 2 1 2),
           Some \<lparr>data = L '' ?a'', p = 3, markers = []\<rparr>,
           \<lparr>token = Some (create 1 [] 0 2 2 1 2), token_freed = False, type = 1, channel = 0,
              tokenStartCharIndex = 2, tokenStartCharPositionInLine = 2, tokenStartLine = 1,
              text' = [], hitEOF = True, mode = 0, modeStack = [], line = 1,
              charPositionInLine = 3\<rparr>,
           [Mark (- 1),
            SyntaxError 1 1 (L ''token recognition error at: '' @ L [CHR 0x27] @ L ''63''
                             @ L [CHR 0x27]),
            Release (- 1)])"
  by code_simp

lemma popping_throws:
  "nextToken popping (Some (cursor ''a'')) InitializeInstanceFields =
     Some (Inl EmptyStackException, Some (cursor ''a''),
           start_candidate (cursor ''a'') InitializeInstanceFields,
           [Mark (- 1), Release (- 1)])"
  by code_simp

lemma mark_cursor:
  "mark (cursor cs) = (- 1, \<lparr>data = L cs, p = 0, markers = [- 1]\<rparr>)"
  by (simp add: mark_def cursor_def Let_def)

theorem nextToken_one_mark_one_release_witness:
  "nextToken counting (Some (cursor ''a'')) InitializeInstanceFields =
     Some (Inr (create 2 [] 0 0 0 1 0),
           Some \<lparr>data = L ''a'', p = 1, markers = []\<rparr>,
           \<lparr>token = Some (create 2 [] 0 0 0 1 0), token_freed = False, type = 2, channel = 0,
              tokenStartCharIndex = 0, tokenStartCharPositionInLine = 0, tokenStartLine = 1,
              text' = [], hitEOF = True, mode = 0, modeStack = [], line = 1,
              charPositionInLine = 0\<rparr>,
           [Mark (- 1), Release (- 1)]) \<and>
   fst (match counting (cursor ''a'') InitializeInstanceFields) = Inr 1 \<and>
   (\<exists>c1. nextToken_loop counting [Mark (- 1)] \<lparr>data = L ''a'', p = 0, markers = [- 1]\<rparr>
            InitializeInstanceFields =
            Some (Inr (create 2 [] 0 0 0 1 0), c1,
              \<lparr>token = Some (create 2 [] 0 0 0 1 0), token_freed = False, type = 2,
                 channel = 0, tokenStartCharIndex = 0, tokenStartCharPositionInLine = 0,
                 tokenStartLine = 1, text' = [], hitEOF = True, mode = 0, modeStack = [],
                 line = 1, charPositionInLine = 0\<rparr>,
              [Mark (- 1)]) \<and>
          Some \<lparr>data = L ''a'', p = 1, markers = []\<rparr> = Some (release (- 1) c1)) \<and>
   nextToken demo (Some (cursor '' ?a'')) InitializeInstanceFields =
     Some (Inr (create 1 [] 0 2 2 1 2),
           Some \<lparr>data = L '' ?a'', p = 3, markers = []\<rparr>,
           \<lparr>token = Some (create 1 [] 0 2 2 1 2), token_freed = False, type = 1, channel = 0,
              tokenStartCharIndex = 2, tokenStartCharPositionInLine = 2, tokenStartLine = 1,
              text' = [], hitEOF = True, mode = 0, modeStack = [], line = 1,
              charPositionInLine = 3\<rparr>,
           [Mark (- 1),
            SyntaxError 1 1 (L ''token recognition error at: '' @ L [CHR 0x27] @ L ''63''
                             @ L [CHR 0x27]),
            Release (- 1)]) \<and>
   filter marks
     [Mark (- 1),
      SyntaxError 1 1 (L ''token recognition error at: '' @ L [CHR 0x27] @ L ''63''
                       @ L [CHR 0x27]),
      Release (- 1)] = [Mark (- 1), Release (- 1)] \<and>
   nextToken popping (Some (cursor ''a'')) InitializeInstanceFields =
     Some (Inl EmptyStackException, Some (cursor ''a''),
           start_candidate (cursor ''a'') InitializeInstanceFields,
           [Mark (- 1), Release (- 1)])"
proof -
  from nextToken_one_mark_one_release [OF counting_under_mark]
  have "\<exists>c1. nextToken_loop counting [Mark (- 1)] \<lparr>data = L ''a'', p = 0, markers = [- 1]\<rparr>
            InitializeInstanceFields =
            Some (Inr (create 2 [] 0 0 0 1 0), c1,
              \<lparr>token = Some (create 2 [] 0 0 0 1 0), token_freed = False, type = 2,
                 channel = 0, tokenStartCharIndex = 0, tokenStartCharPositionInLine = 0,
                 tokenStartLine = 1, text' = [], hitEOF = True, mode = 0, modeStack = [],
                 line = 1, charPositionInLine = 0\<rparr>,
              [Mark (- 1)]) \<and>
          Some \<lparr>data = L ''a'', p = 1, markers = []\<rparr> = Some (release (- 1) c1)"
    unfolding mark_cursor fst_conv snd_conv by auto
  moreover from nextToken_one_mark_one_release [OF demo_skip_error_token]
  have "filter marks
     [Mark (- 1),
      SyntaxError 1 1 (L ''token recognition error at: '' @ L [CHR 0x27] @ L ''63''
                       @ L [CHR 0x27]),
      Release (- 1)] = [Mark (- 1), Release (- 1)]"
    unfolding mark_cursor fst_conv snd_conv by blast
  ultimately show ?thesis
    using counting_under_mark counting_outside demo_skip_error_token popping_throws
    by blast
qed

subsection \<open>The start position under \<open>MORE\<close>\<close>

lemma recover_start:
  "start_of (snd (recover c s)) = start_of s \<and> token (snd (recover c s)) = token s"
  by (simp add: recover_def interp_consume_def start_of_def)

lemma settle_start:
  "start_of (settle ty c s) = start_of s \<and> token (settle ty c s) = token s"
  by (simp add: settle_def Let_def start_of_def)

lemma iteration_keeps_start:
  assumes "kept_by E (c, s\<lparr>type := INVALID_TYPE\<rparr>)"
    and "try_match E c (s\<lparr>type := INVALID_TYPE\<rparr>) = Inr (ty, c1, s1, new)"
  shows "start_of (settle ty c1 s1) = start_of s \<and> token (settle ty c1 s1) = token s"
proof -
  obtain r c0 s0 where m: "match E c (s\<lparr>type := INVALID_TYPE\<rparr>) = (r, c0, s0)"
    by (cases "match E c (s\<lparr>type := INVALID_TYPE\<rparr>)")
  with assms(1) have s0: "start_of s0 = start_of s \<and> token s0 = token s"
    by (simp add: kept_by_def start_of_def)
  from assms(2) m have "s1 = s0 \<or> s1 = snd (recover c0 s0)"
    by (auto simp: try_match_def split: sum.splits if_splits prod.splits)
  with s0 recover_start [of c0 s0] settle_start [of ty c1 s1] show ?thesis by auto
qed

lemma throw_keeps_start:
  assumes "kept_by E (c, s\<lparr>type := INVALID_TYPE\<rparr>)"
    and "try_match E c (s\<lparr>type := INVALID_TYPE\<rparr>) = Inl (e, c1, s1)"
  shows "start_of s1 = start_of s"
proof -
  from assms(2) have "s1 = snd (snd (match E c (s\<lparr>type := INVALID_TYPE\<rparr>)))"
    by (auto simp: try_match_def split: sum.splits if_splits prod.splits)
  with assms(1) show ?thesis by (simp add: kept_by_def start_of_def)
qed

lemma emit_start:
  "tk_startIndex (fst (emit c s)) = tokenStartCharIndex s \<and>
   tk_line (fst (emit c s)) = tokenStartLine s \<and>
   tk_charPositionInLine (fst (emit c s)) = tokenStartCharPositionInLine s \<and>
   start_of (snd (emit c s)) = start_of s"
  by (simp add: emit_def Let_def create_def emit_token_def start_of_def)

lemma passes_first:
  assumes "\<forall>n. list_all (kept_by E) (passes E n c s)"
  shows "kept_by E (c, s\<lparr>type := INVALID_TYPE\<rparr>)"
  using assms [rule_format, of "Suc 0"] by simp

lemma passes_rest:
  assumes "\<forall>n. list_all (kept_by E) (passes E n c s)"
    and "try_match E c (s\<lparr>type := INVALID_TYPE\<rparr>) = Inr (ty, c1, s1, new)"
    and "type (settle ty c1 s1) \<noteq> SKIP" "type (settle ty c1 s1) = MORE"
  shows "\<forall>n. list_all (kept_by E) (passes E n c1 (settle ty c1 s1))"
proof
  fix n
  from assms(1) [rule_format, of "Suc n"] assms(2-4)
  show "list_all (kept_by E) (passes E n c1 (settle ty c1 s1))"
    by (simp add: Let_def)
qed

lemma candidate_keeps_start:
  assumes run: "candidate E evs c s = Some y"
    and kept: "\<forall>n. list_all (kept_by E) (passes E n c s)"
    and fresh: "token s = None"
  shows "start_of (fst (snd (snd y))) = start_of s \<and>
         (\<forall>n. list_all (\<lambda>call. start_of (snd call) = start_of s) (passes E n c s)) \<and>
         (\<forall>t. fst y = Return t \<longrightarrow>
            (tk_startIndex t, tk_line t, tk_charPositionInLine t) = start_of s)"
  using run kept fresh
proof (induction rule: candidate.raw_induct [rotated 1, consumes 1])
  case (1 candidate' E evs c s y)
  note IH = 1(1) and body = 1(2) and kept = 1(3) and fresh = 1(4)
  note first = passes_first [OF kept]
  have here: "start_of (s\<lparr>type := INVALID_TYPE\<rparr>) = start_of s"
    by (simp add: start_of_def)
  show ?case
  proof (cases "try_match E c (s\<lparr>type := INVALID_TYPE\<rparr>)")
    case (Inl a)
    obtain e c0 s0 where a: "a = (e, c0, s0)" by (cases a) auto
    from throw_keeps_start [OF first] Inl a have "start_of s0 = start_of s" by blast
    moreover have "list_all (\<lambda>call. start_of (snd call) = start_of s) (passes E n c s)" for n
      using Inl here by (cases n) simp_all
    ultimately show ?thesis using body Inl a by auto
  next
    case (Inr b)
    obtain ty c1 s1 new where b: "b = (ty, c1, s1, new)" by (cases b) auto
    define s2 where "s2 = settle ty c1 s1"
    from iteration_keeps_start [OF first] Inr b
    have s2: "start_of s2 = start_of s" "token s2 = None"
      using fresh unfolding s2_def by auto
    consider (skip) "type s2 = SKIP" | (more) "type s2 \<noteq> SKIP" "type s2 = MORE"
      | (emit) "type s2 \<noteq> SKIP" "type s2 \<noteq> MORE" by blast
    then show ?thesis
    proof cases
      case skip
      have "list_all (\<lambda>call. start_of (snd call) = start_of s) (passes E n c s)" for n
        using Inr b skip here by (cases n) (simp_all add: Let_def s2_def)
      with body Inr b s2 skip show ?thesis by (auto simp: Let_def s2_def)
    next
      case more
      with body Inr b have call: "candidate' E (evs @ new) c1 s2 = Some y"
        by (simp add: Let_def s2_def)
      have kept2: "\<forall>n. list_all (kept_by E) (passes E n c1 s2)"
        unfolding s2_def
        using passes_rest [OF kept] Inr b more [unfolded s2_def] by blast
      note ih = IH [OF call kept2 s2(2)]
      have "list_all (\<lambda>call. start_of (snd call) = start_of s) (passes E n c s)" for n
      proof (cases n)
        case 0
        then show ?thesis by simp
      next
        case (Suc k)
        from ih s2(1) have
          "list_all (\<lambda>call. start_of (snd call) = start_of s) (passes E k c1 s2)"
          by simp
        with Suc Inr b more here show ?thesis by (simp add: Let_def s2_def)
      qed
      with ih s2(1) show ?thesis by simp
    next
      case emit
      have "list_all (\<lambda>call. start_of (snd call) = start_of s) (passes E n c s)" for n
        using Inr b emit here by (cases n) (simp_all add: Let_def s2_def)
      moreover from body Inr b s2 emit
      have "y = (Return (fst (emit c1 s2)), c1, snd (emit c1 s2), evs @ new)"
        by (auto simp: Let_def s2_def split: prod.splits)
      ultimately show ?thesis using emit_start [of c1 s2] s2 by (simp add: start_of_def)
    qed
  qed
qed

text \<open>
  The claim C5 says that the token emitted after a chain of \<open>MORE\<close> continuations has the
  start position captured at the start of the candidate. The start fields and the token
  pointer are fields of the driver that the actions of the engine can reach, and
  \<^verbatim>\<open>nextToken\<close> returns the token an action has installed through \<^verbatim>\<open>emit(Token *)\<close>
  as it is. With an engine whose plus sign moves the start index on by one, the candidate
  on the input \<open>++a\<close> begins at the index 0 and its token, after two continuations, has
  the start index 2; with an engine whose letter \<open>a\<close> installs a token of its own, the
  token returned has the start index and column 7.
\<close>

theorem more_chain_moves_start_counterexample:
  "tokenStartCharIndex
     (start_candidate (snd (mark (cursor ''++a''))) InitializeInstanceFields) = 0 \<and>
   nextToken shifting (Some (cursor ''++a'')) InitializeInstanceFields =
     Some (Inr (create 1 [] 0 2 2 1 0),
           Some \<lparr>data = L ''++a'', p = 3, markers = []\<rparr>,
           \<lparr>token = Some (create 1 [] 0 2 2 1 0), token_freed = False, type = 1, channel = 0,
              tokenStartCharIndex = 2, tokenStartCharPositionInLine = 0, tokenStartLine = 1,
              text' = [], hitEOF = True, mode = 0, modeStack = [], line = 1,
              charPositionInLine = 3\<rparr>,
           [Mark (- 1), Release (- 1)]) \<and>
   nextToken emitting (Some (cursor ''++a'')) InitializeInstanceFields =
     Some (Inr (create 1 [] 0 7 7 1 7),
           Some \<lparr>data = L ''++a'', p = 3, markers = []\<rparr>,
           \<lparr>token = Some (create 1 [] 0 7 7 1 7), token_freed = False, type = 1, channel = 0,
              tokenStartCharIndex = 0, tokenStartCharPositionInLine = 0, tokenStartLine = 1,
              text' = [], hitEOF = True, mode = 0, modeStack = [], line = 1,
              charPositionInLine = 3\<rparr>,
           [Mark (- 1), Release (- 1)])"
  by code_simp

text \<open>
  C5, amended. Let a candidate begin at cursor \<open>c\<close> in driver \<open>s0\<close>, and let every call
  of \<^verbatim>\<open>match\<close> it makes leave the start fields to the driver and install no token of its
  own. Then the candidate captures as its start the index of \<open>c\<close> and the line of the
  engine, both cast to \<^verbatim>\<open>int\<close>, and the column of the engine; every pass through the inner
  loop, however many were continued by \<open>MORE\<close>, begins with this start index, line and
  column; when the candidate ends they are still the start position, and a token it
  returns has this start index, line and column.
\<close>

theorem more_chain_keeps_start:
  assumes run: "candidate E evs c (start_candidate c s0) = Some (sig, c', s', evs')"
    and kept: "\<forall>n. list_all (kept_by E) (passes E n c (start_candidate c s0))"
  shows "start_of (start_candidate c s0) =
           (ucast (index c), ucast (getLine s0), getCharPositionInLine s0) \<and>
         (\<forall>n. list_all
                 (\<lambda>call. start_of (snd call) =
                    (ucast (index c), ucast (getLine s0), getCharPositionInLine s0))
                 (passes E n c (start_candidate c s0))) \<and>
         start_of s' = (ucast (index c), ucast (getLine s0), getCharPositionInLine s0) \<and>
         (\<forall>t. sig = Return t \<longrightarrow>
            tk_startIndex t = ucast (index c) \<and>
            tk_line t = ucast (getLine s0) \<and>
            tk_charPositionInLine t = getCharPositionInLine s0)"
proof -
  have st: "start_of (start_candidate c s0) =
      (ucast (index c), ucast (getLine s0), getCharPositionInLine s0)"
    "token (start_candidate c s0) = None"
    by (simp_all add: start_candidate_def start_of_def)
  from candidate_keeps_start [OF run kept st(2)] st(1) show ?thesis by simp
qed

text \<open>
  An example: the candidate of the small lexer on the input \<open>++a\<close> makes three passes,
  two of them continued by \<open>MORE\<close>, and returns a token with the start index 0, line 1
  and column 0.
\<close>

lemma kept_by_demo: "kept_by demo call"
  by (cases call)
    (simp add: kept_by_def demo_def demo_match_def interp_consume_def start_of_def
      skip_def more_def)

lemma passes_kept_by_demo: "list_all (kept_by demo) (passes demo n c s)"
  by (simp add: list_all_iff kept_by_demo)

lemma demo_more_chain:
  "candidate demo [Mark (- 1)] (snd (mark (cursor ''++a'')))
     (start_candidate (snd (mark (cursor ''++a''))) InitializeInstanceFields) =
     Some (Return (create 1 [] 0 0 2 1 0),
           \<lparr>data = L ''++a'', p = 3, markers = [- 1]\<rparr>,
           \<lparr>token = Some (create 1 [] 0 0 2 1 0), token_freed = False, type = 1, channel = 0,
              tokenStartCharIndex = 0, tokenStartCharPositionInLine = 0, tokenStartLine = 1,
              text' = [], hitEOF = True, mode = 0, modeStack = [], line = 1,
              charPositionInLine = 3\<rparr>,
           [Mark (- 1)])"
  by code_simp

lemma demo_more_passes:
  "map (\<lambda>call. (p (fst call), start_of (snd call)))
     (passes demo 5 (snd (mark (cursor ''++a'')))
        (start_candidate (snd (mark (cursor ''++a''))) InitializeInstanceFields)) =
     [(0, 0, 1, 0), (1, 0, 1, 0), (2, 0, 1, 0)] \<and>
   (ucast (index (snd (mark (cursor ''++a''))))  :: c_int) = 0 \<and>
   (ucast (getLine InitializeInstanceFields) :: c_int) = 1 \<and>
   getCharPositionInLine InitializeInstanceFields = 0"
  by code_simp

theorem more_chain_keeps_start_witness:
  "candidate demo [Mark (- 1)] (snd (mark (cursor ''++a'')))
     (start_candidate (snd (mark (cursor ''++a''))) InitializeInstanceFields) =
     Some (Return (create 1 [] 0 0 2 1 0),
           \<lparr>data = L ''++a'', p = 3, markers = [- 1]\<rparr>,
           \<lparr>token = Some (create 1 [] 0 0 2 1 0), token_freed = False, type = 1, channel = 0,
              tokenStartCharIndex = 0, tokenStartCharPositionInLine = 0, tokenStartLine = 1,
              text' = [], hitEOF = True, mode = 0, modeStack = [], line = 1,
              charPositionInLine = 3\<rparr>,
           [Mark (- 1)]) \<and>
   list_all (kept_by demo)
     (passes demo 5 (snd (mark (cursor ''++a'')))
        (start_candidate (snd (mark (cursor ''++a''))) InitializeInstanceFields)) \<and>
   map (\<lambda>call. (p (fst call), start_of (snd call)))
     (passes demo 5 (snd (mark (cursor ''++a'')))
        (start_candidate (snd (mark (cursor ''++a''))) InitializeInstanceFields)) =
     [(0, 0, 1, 0), (1, 0, 1, 0), (2, 0, 1, 0)] \<and>
   tk_startIndex (create 1 [] 0 0 2 1 0) = 0 \<and>
   tk_line (create 1 [] 0 0 2 1 0) = 1 \<and>
   tk_charPositionInLine (create 1 [] 0 0 2 1 0) = 0"
proof -
  have kept: "\<forall>n. list_all (kept_by demo)
     (passes demo n (snd (mark (cursor ''++a'')))
        (start_candidate (snd (mark (cursor ''++a''))) InitializeInstanceFields))"
    using passes_kept_by_demo by blast
  from more_chain_keeps_start [OF demo_more_chain kept]
  have "tk_startIndex (create 1 [] 0 0 2 1 0) = ucast (index (snd (mark (cursor ''++a'')))) \<and>
        tk_line (create 1 [] 0 0 2 1 0) = ucast (getLine InitializeInstanceFields) \<and>
        tk_charPositionInLine (create 1 [] 0 0 2 1 0) =
          getCharPositionInLine InitializeInstanceFields"
    by blast
  then have "tk_startIndex (create 1 [] 0 0 2 1 0) = 0 \<and>
        tk_line (create 1 [] 0 0 2 1 0) = 1 \<and>
        tk_charPositionInLine (create 1 [] 0 0 2 1 0) = 0"
    using demo_more_passes by simp
  with demo_more_chain kept demo_more_passes show ?thesis by blast
qed

subsection \<open>The mode stack\<close>

lemma pushModes_snoc: "pushModes (ms @ [m]) s = pushMode m (pushModes ms s)"
  by (induction ms arbitrary: s) simp_all

lemma popMode_pushMode: "popMode (pushMode m s) = Inr (mode s, s)"
  by (simp add: popMode_def pushMode_def mode_m_def Let_def)

lemma popModes_pushModes: "popModes (length ms) (pushModes ms s) = Inr s"
proof (induction ms arbitrary: s rule: rev_induct)
  case Nil
  show ?case by simp
next
  case (snoc m ms)
  then show ?case by (simp add: pushModes_snoc popMode_pushMode)
qed

text \<open>
  C6. For every mode \<open>m\<close> and every driver, whatever its mode stack holds, \<^verbatim>\<open>pushMode(m)\<close>
  makes \<open>m\<close> the mode over the old mode on the stack, and \<^verbatim>\<open>popMode()\<close> right after it
  returns the mode that was current before the push and leaves the driver as it was before
  the push, mode and mode stack included; the same holds for any number of nested pushes
  followed by as many pops. On an empty mode stack \<^verbatim>\<open>popMode()\<close> throws
  \<^verbatim>\<open>EmptyStackException\<close>, and only there.
\<close>

theorem pushMode_popMode:
  "popMode (pushMode m s) = Inr (mode s, s) \<and>
   mode (pushMode m s) = m \<and>
   modeStack (pushMode m s) = modeStack s @ [mode s] \<and>
   popModes (length ms) (pushModes ms s) = Inr s \<and>
   popMode (s\<lparr>modeStack := []\<rparr>) = Inl EmptyStackException \<and>
   (popMode s = Inl EmptyStackException) = (modeStack s = [])"
proof -
  have "mode (pushMode m s) = m \<and> modeStack (pushMode m s) = modeStack s @ [mode s]"
    by (simp add: pushMode_def mode_m_def)
  moreover have "popMode (s\<lparr>modeStack := []\<rparr>) = Inl EmptyStackException"
    by (simp add: popMode_def)
  moreover have "(popMode s = Inl EmptyStackException) = (modeStack s = [])"
    by (simp add: popMode_def Let_def)
  ultimately show ?thesis using popMode_pushMode popModes_pushModes by blast
qed

theorem pushMode_popMode_witness:
  "popMode (pushMode 2 (InitializeInstanceFields\<lparr>mode := 1, modeStack := [0]\<rparr>)) =
     Inr (1, InitializeInstanceFields\<lparr>mode := 1, modeStack := [0]\<rparr>) \<and>
   modeStack (pushMode 2 (InitializeInstanceFields\<lparr>mode := 1, modeStack := [0]\<rparr>)) = [0, 1] \<and>
   popMode InitializeInstanceFields = Inl EmptyStackException"
  using pushMode_popMode [of 2 "InitializeInstanceFields\<lparr>mode := 1, modeStack := [0]\<rparr>" "[]"]
    pushMode_popMode [of 2 InitializeInstanceFields "[]"]
  by (simp add: InitializeInstanceFields_def)

subsection \<open>Reset\<close>

text \<open>
  What \<^verbatim>\<open>reset\<close> does to the cursor and to the fields other than the token pointer: an
  attached cursor is at index 0 of the same characters, and no cursor is attached when none
  was; the type is the invalid type, the channel the default channel, start index, start
  line and start column are \<open>-1\<close>, the text is empty, the end-of-input latch is cleared,
  the mode is the default mode and the mode stack is empty, and line and column of the
  engine are those of the engine's reset.
\<close>

lemma reset_fields:
  "fst (reset (Some c) s) = Some (c\<lparr>p := 0\<rparr>) \<and>
   fst (reset None s) = None \<and>
   type (snd (reset inp s)) = INVALID_TYPE \<and>
   channel (snd (reset inp s)) = DEFAULT_CHANNEL \<and>
   tokenStartCharIndex (snd (reset inp s)) = - 1 \<and>
   tokenStartLine (snd (reset inp s)) = - 1 \<and>
   tokenStartCharPositionInLine (snd (reset inp s)) = - 1 \<and>
   text' (snd (reset inp s)) = [] \<and>
   \<not> hitEOF (snd (reset inp s)) \<and>
   mode (snd (reset inp s)) = DEFAULT_MODE \<and>
   modeStack (snd (reset inp s)) = [] \<and>
   line (snd (reset inp s)) = line (interp_reset s) \<and>
   charPositionInLine (snd (reset inp s)) = charPositionInLine (interp_reset s)"
  by (simp add: reset_def interp_reset_def seek_def)

text \<open>
  The token pointer is left as it was, and after \<^verbatim>\<open>reset\<close> a pointer that was set is
  dangling; the next call of \<^verbatim>\<open>nextToken\<close> on a cursor does not return, whatever the
  engine.
\<close>

lemma reset_token:
  "token (snd (reset inp s)) = token s \<and>
   dangling (snd (reset inp s)) = (token s \<noteq> None)"
  by (simp add: reset_def interp_reset_def dangling_def)

lemma nextToken_dangling:
  assumes "dangling s" and "\<not> hitEOF s"
  shows "nextToken E (Some c) s = None"
  using assms
  by (simp add: nextToken_def split: prod.splits) (subst nextToken_loop.simps, simp)

lemma nextToken_after_reset:
  assumes "token s \<noteq> None"
  shows "nextToken E (Some c) (snd (reset inp s)) = None"
  using assms reset_token [of inp s] reset_fields [of c s inp]
  by (intro nextToken_dangling) simp_all

text \<open>
  C7. The claim says that after \<^verbatim>\<open>reset\<close> the current token is discarded. The code
  destroys the token (\<^verbatim>\<open>delete _token;\<close>) and keeps the pointer to it: it does not store
  \<^verbatim>\<open>nullptr\<close>, as \<^verbatim>\<open>nextToken\<close> does after the same statement. On the input \<open>a\<close> the
  first call of \<^verbatim>\<open>nextToken\<close> returns the token of the letter and keeps it as the current
  token. After \<^verbatim>\<open>reset\<close> the cursor is back at index 0 and every other field has the
  value the claim gives, but the driver still holds the pointer to the token, now
  destroyed, and the next call of \<^verbatim>\<open>nextToken\<close> destroys it a second time and does not
  return. A driver that holds no token is reset as the claim says, and its next call
  returns the token of the letter.
\<close>

theorem reset_leaves_token_dangling:
  "nextToken demo (Some (cursor ''a'')) InitializeInstanceFields =
     Some (Inr (create 1 [] 0 0 0 1 0),
           Some \<lparr>data = L ''a'', p = 1, markers = []\<rparr>,
           \<lparr>token = Some (create 1 [] 0 0 0 1 0), token_freed = False, type = 1, channel = 0,
              tokenStartCharIndex = 0, tokenStartCharPositionInLine = 0, tokenStartLine = 1,
              text' = [], hitEOF = True, mode = 0, modeStack = [], line = 1,
              charPositionInLine = 1\<rparr>,
           [Mark (- 1), Release (- 1)]) \<and>
   reset (Some \<lparr>data = L ''a'', p = 1, markers = []\<rparr>)
     \<lparr>token = Some (create 1 [] 0 0 0 1 0), token_freed = False, type = 1, channel = 0,
        tokenStartCharIndex = 0, tokenStartCharPositionInLine = 0, tokenStartLine = 1,
        text' = [], hitEOF = True, mode = 0, modeStack = [], line = 1,
        charPositionInLine = 1\<rparr> =
     (Some (cursor ''a''),
      \<lparr>token = Some (create 1 [] 0 0 0 1 0), token_freed = True, type = INVALID_TYPE,
         channel = DEFAULT_CHANNEL, tokenStartCharIndex = - 1,
         tokenStartCharPositionInLine = - 1, tokenStartLine = - 1, text' = [],
         hitEOF = False, mode = DEFAULT_MODE, modeStack = [], line = 1,
         charPositionInLine = 0\<rparr>) \<and>
   dangling
     \<lparr>token = Some (create 1 [] 0 0 0 1 0), token_freed = True, type = INVALID_TYPE,
        channel = DEFAULT_CHANNEL, tokenStartCharIndex = - 1,
        tokenStartCharPositionInLine = - 1, tokenStartLine = - 1, text' = [],
        hitEOF = False, mode = DEFAULT_MODE, modeStack = [], line = 1,
        charPositionInLine = 0\<rparr> \<and>
   nextToken demo (Some (cursor ''a''))
     \<lparr>token = Some (create 1 [] 0 0 0 1 0), token_freed = True, type = INVALID_TYPE,
        channel = DEFAULT_CHANNEL, tokenStartCharIndex = - 1,
        tokenStartCharPositionInLine = - 1, tokenStartLine = - 1, text' = [],
        hitEOF = False, mode = DEFAULT_MODE, modeStack = [], line = 1,
        charPositionInLine = 0\<rparr> = None \<and>
   reset (Some (cursor ''a'')) InitializeInstanceFields =
     (Some (cursor ''a''),
      \<lparr>token = None, token_freed = False, type = INVALID_TYPE,
         channel = DEFAULT_CHANNEL, tokenStartCharIndex = - 1,
         tokenStartCharPositionInLine = - 1, tokenStartLine = - 1, text' = [],
         hitEOF = False, mode = DEFAULT_MODE, modeStack = [], line = 1,
         charPositionInLine = 0\<rparr>) \<and>
   nextToken demo (Some (cursor ''a''))
     \<lparr>token = None, token_freed = False, type = INVALID_TYPE,
        channel = DEFAULT_CHANNEL, tokenStartCharIndex = - 1,
        tokenStartCharPositionInLine = - 1, tokenStartLine = - 1, text' = [],
        hitEOF = False, mode = DEFAULT_MODE, modeStack = [], line = 1,
        charPositionInLine = 0\<rparr> =
     Some (Inr (create 1 [] 0 0 0 1 0),
           Some \<lparr>data = L ''a'', p = 1, markers = []\<rparr>,
           \<lparr>token = Some (create 1 [] 0 0 0 1 0), token_freed = False, type = 1, channel = 0,
              tokenStartCharIndex = 0, tokenStartCharPositionInLine = 0, tokenStartLine = 1,
              text' = [], hitEOF = True, mode = 0, modeStack = [], line = 1,
              charPositionInLine = 1\<rparr>,
           [Mark (- 1), Release (- 1)])"
  by code_simp

subsection \<open>The error display\<close>

lemma digits_set: "set (digits n) \<subseteq> {48..57}"
proof (induction n rule: digits.induct)
  case (1 n)
  show ?case
  proof (cases "n < 10")
    case True
    then show ?thesis by (subst digits.simps) auto
  next
    case False
    have "n mod 10 < 10" by simp
    then have "48 + int (n mod 10) \<in> {48..57}" by auto
    with False 1 show ?thesis by (subst digits.simps) auto
  qed
qed

lemma digits_nonempty: "digits n \<noteq> []"
  by (subst digits.simps) simp

text \<open>The digits read as a decimal numeral give the number back.\<close>

lemma digits_value: "foldl (\<lambda>a d. 10 * a + (d - 48)) 0 (digits n) = int n"
proof (induction n rule: digits.induct)
  case (1 n)
  show ?case
  proof (cases "n < 10")
    case True
    then show ?thesis by (subst digits.simps) simp
  next
    case False
    with 1 have "foldl (\<lambda>a d. 10 * a + (d - 48)) 0 (digits (n div 10)) = int (n div 10)"
      by simp
    with False show ?thesis
      by (subst digits.simps) (simp add: zdiv_int zmod_int)
  qed
qed

lemma digits_single:
  assumes "digits n = [d]"
  shows "d \<noteq> int n"
proof (cases "n < 10")
  case True
  with assms have "d = 48 + int n" by (subst (asm) digits.simps) simp
  then show ?thesis by simp
next
  case False
  with assms have "digits (n div 10) @ [48 + int (n mod 10)] = [d]"
    by (subst (asm) digits.simps) simp
  then have "digits (n div 10) = []" by (simp add: append_eq_Cons_conv)
  then show ?thesis using digits_nonempty by simp
qed

lemma to_wstring_set: "set (to_wstring c) \<subseteq> insert 45 {48..57}"
  using digits_set by (auto simp: to_wstring_def L_def)

lemma to_wstring_not_itself: "to_wstring c \<noteq> [c]"
proof (cases "c < 0")
  case True
  then show ?thesis using digits_nonempty by (simp add: to_wstring_def L_def)
next
  case False
  then show ?thesis using digits_single [of "nat c" c] by (auto simp: to_wstring_def)
qed

text \<open>
  The display of one character, \<^verbatim>\<open>getErrorDisplay(int c)\<close>, is as the claim C9 says: the
  end-of-input value is shown as \<^verbatim>\<open><EOF>\<close>, newline, tab and carriage return as a
  backslash followed by \<open>n\<close>, \<open>t\<close> and \<open>r\<close>, and every other value as its decimal
  numeral (digits after a possible minus sign, which read as a number give the value
  back), which is never the character itself.
\<close>

lemma getErrorDisplay_char:
  "getErrorDisplay EOF = L ''<EOF>'' \<and>
   getErrorDisplay 10 = L [CHR 0x5C, CHR ''n''] \<and>
   getErrorDisplay 9 = L [CHR 0x5C, CHR ''t''] \<and>
   getErrorDisplay 13 = L [CHR 0x5C, CHR ''r''] \<and>
   (c \<notin> {EOF, 10, 9, 13} \<longrightarrow>
      getErrorDisplay c = to_wstring c \<and>
      to_wstring c = (if c < 0 then L ''-'' else []) @ digits (nat \<bar>c\<bar>) \<and>
      foldl (\<lambda>a d. 10 * a + (d - 48)) 0 (digits (nat \<bar>c\<bar>)) = \<bar>c\<bar> \<and>
      set (digits (nat \<bar>c\<bar>)) \<subseteq> {48..57} \<and>
      getErrorDisplay c \<noteq> [c])"
proof -
  have "c \<notin> {EOF, 10, 9, 13} \<longrightarrow>
      getErrorDisplay c = to_wstring c \<and>
      to_wstring c = (if c < 0 then L ''-'' else []) @ digits (nat \<bar>c\<bar>) \<and>
      foldl (\<lambda>a d. 10 * a + (d - 48)) 0 (digits (nat \<bar>c\<bar>)) = \<bar>c\<bar> \<and>
      set (digits (nat \<bar>c\<bar>)) \<subseteq> {48..57} \<and>
      getErrorDisplay c \<noteq> [c]"
    using to_wstring_not_itself [of c] digits_value [of "nat \<bar>c\<bar>"] digits_set [of "nat \<bar>c\<bar>"]
    by (simp add: getErrorDisplay_def to_wstring_def)
  moreover have "getErrorDisplay EOF = L ''<EOF>'' \<and>
   getErrorDisplay 10 = L [CHR 0x5C, CHR ''n''] \<and>
   getErrorDisplay 9 = L [CHR 0x5C, CHR ''t''] \<and>
   getErrorDisplay 13 = L [CHR 0x5C, CHR ''r'']"
    by (simp add: getErrorDisplay_def EOF_def)
  ultimately show ?thesis by blast
qed

text \<open>
  C9. The message of a syntax error is made by the overload for strings,
  \<^verbatim>\<open>getErrorDisplay(const std::wstring &s)\<close>, which does not display the characters of
  \<open>s\<close>: it reads \<^verbatim>\<open>((char*)s.c_str())[i]\<close>, the \<open>i\<close>-th byte of the buffer, for \<open>i\<close> below
  the length of \<open>s\<close>. For one character below 128 the byte is the character, and the
  letter \<open>a\<close> is shown as 97. But the character U+010A, whose code is 266 and whose low
  byte is 10, is shown as the escape of the newline and not as 266; the character U+00FF,
  whose low byte is the \<^verbatim>\<open>char\<close> \<open>-1\<close>, as \<^verbatim>\<open><EOF>\<close>; and of the string of the letter
  \<open>a\<close> and a newline the first two bytes of the letter are shown, as 970, and the newline
  is not shown at all. On the input of the one character U+010A, which the engine of the
  small lexer does not accept, the listener is told of a token recognition error at the
  escape of the newline.
\<close>

theorem getErrorDisplay_wstring_bytes:
  "getErrorDisplay 97 = L ''97'' \<and>
   getErrorDisplay_wstring (L ''a'') = L ''97'' \<and>
   getErrorDisplay 266 = L ''266'' \<and>
   getErrorDisplay_wstring [266] = L [CHR 0x5C, CHR ''n''] \<and>
   getErrorDisplay 255 = L ''255'' \<and>
   getErrorDisplay_wstring [255] = L ''<EOF>'' \<and>
   concat (map getErrorDisplay [97, 10]) = L ''97'' @ L [CHR 0x5C, CHR ''n''] \<and>
   getErrorDisplay_wstring [97, 10] = L ''970'' \<and>
   nextToken demo (Some \<lparr>data = [266], p = 0, markers = []\<rparr>) InitializeInstanceFields =
     Some (Inr (create EOF [] 0 1 0 1 1),
           Some \<lparr>data = [266], p = 1, markers = []\<rparr>,
           \<lparr>token = Some (create EOF [] 0 1 0 1 1), token_freed = False, type = SKIP,
              channel = 0, tokenStartCharIndex = 0, tokenStartCharPositionInLine = 0,
              tokenStartLine = 1, text' = [], hitEOF = True, mode = 0, modeStack = [],
              line = 1, charPositionInLine = 1\<rparr>,
           [Mark (- 1),
            SyntaxError 1 0 (L ''token recognition error at: '' @ L [CHR 0x27]
                             @ L [CHR 0x5C, CHR ''n''] @ L [CHR 0x27]),
            Release (- 1)])"
  by code_simp

subsection \<open>The text override\<close>

text \<open>
  C10. After \<^verbatim>\<open>setText\<close>, \<^verbatim>\<open>getText\<close> returns the text that was set when it is not
  empty, and the text of the engine when it is empty. So after \<^verbatim>\<open>setText\<close> of the empty
  string \<^verbatim>\<open>getText\<close> returns the text of the engine, the driver is the one in which the
  text was cleared and never set (as at the start of a candidate and after a reset), and
  \<^verbatim>\<open>getText\<close> never returns the text of the driver when that text is empty and the
  engine's text is not.
\<close>

theorem getText_empty_override:
  "getText g inp (setText tx s) = (if tx \<noteq> [] then tx else g inp) \<and>
   getText g inp (setText [] s) = g inp \<and>
   setText [] s = s\<lparr>text' := []\<rparr> \<and>
   setText [] (start_candidate c s) = start_candidate c s \<and>
   setText [] (snd (reset inp s)) = snd (reset inp s) \<and>
   (getText g inp s = text' s) = (text' s \<noteq> [] \<or> g inp = [])"
  by (auto simp: getText_def setText_def start_candidate_def reset_def interp_reset_def)

theorem getText_empty_override_witness:
  "getText (\<lambda>inp. L ''abc'') (Some (cursor ''abc'')) (setText [] InitializeInstanceFields) =
     L ''abc'' \<and>
   getText (\<lambda>inp. L ''abc'') (Some (cursor ''abc'')) InitializeInstanceFields = L ''abc'' \<and>
   getText (\<lambda>inp. L ''abc'') (Some (cursor ''abc'')) (setText (L ''x'') InitializeInstanceFields) =
     L ''x''"
  using getText_empty_override [of "\<lambda>inp. L ''abc''" "Some (cursor ''abc'')" "[]"
      InitializeInstanceFields]
    getText_empty_override [of "\<lambda>inp. L ''abc''" "Some (cursor ''abc'')" "L ''x''"
      InitializeInstanceFields]
  by (simp add: getText_def InitializeInstanceFields_def L_def)

subsection \<open>Termination\<close>

lemma progress_step_0:
  assumes "progress_step E 0 c s"
  shows "\<exists>t c' s' evs.
           nextToken E (Some c) s = Some (Inr t, Some c', s', evs) \<and>
           (tk_type t = EOF \<or> remaining c' < remaining c)"
proof -
  from assms have step:
    "case (Some c, nextToken E (Some c) s) of
       (Some c1, Some (Inr t, Some c', s', evs)) \<Rightarrow>
         tk_type t = EOF \<or> remaining c' < remaining c1
     | _ \<Rightarrow> False"
    by (simp add: progress_step_def)
  show ?thesis
  proof (cases "nextToken E (Some c) s")
    case None
    with step show ?thesis by simp
  next
    case (Some y)
    obtain r inp' s' evs where y: "y = (r, inp', s', evs)" by (cases y) auto
    from step Some y show ?thesis by (cases r; cases inp') auto
  qed
qed

lemma progress_step_Suc:
  assumes "nextToken E (Some c) s = Some (Inr t, Some c', s', evs)"
    and "tk_type t \<noteq> EOF"
  shows "progress_step E (Suc n) c s = progress_step E n c' s'"
  using assms
  by (cases "successive E n (Some c') s'") (auto simp: progress_step_def)

lemma progresses_on_next:
  assumes "progresses_on E c s"
    and "nextToken E (Some c) s = Some (Inr t, Some c', s', evs)"
    and "tk_type t \<noteq> EOF"
  shows "progresses_on E c' s'"
  unfolding progresses_on_def
proof
  fix n
  from assms(1) have "progress_step E (Suc n) c s" by (simp add: progresses_on_def)
  with progress_step_Suc [OF assms(2,3)] show "progress_step E n c' s'" by simp
qed

lemma getAllTokens_loop_progress:
  assumes "progresses_on E c s"
  shows "\<exists>n ts inp1 s1 t inp2 s2 evs.
           successive E n (Some c) s = Some (ts, inp1, s1) \<and>
           nextToken E inp1 s1 = Some (Inr t, inp2, s2, evs) \<and>
           tk_type t = EOF \<and>
           Option.bind (nextToken E (Some c) s) (getAllTokens_loop E acc) =
             Some (Inr (acc @ ts), inp2, s2) \<and>
           length ts = n"
  using assms
proof (induction "remaining c" arbitrary: c s acc rule: less_induct)
  case less
  from less.prems have "progress_step E 0 c s" by (simp add: progresses_on_def)
  from progress_step_0 [OF this] obtain t c' s' evs where
    call: "nextToken E (Some c) s = Some (Inr t, Some c', s', evs)" and
    dec: "tk_type t = EOF \<or> remaining c' < remaining c"
    by blast
  show ?case
  proof (cases "tk_type t = EOF")
    case True
    have "Option.bind (nextToken E (Some c) s) (getAllTokens_loop E acc) =
        Some (Inr (acc @ []), Some c', s')"
      using call True by (simp add: getAllTokens_loop.simps)
    with call True show ?thesis
      by (intro exI [of _ 0] exI [of _ "[]"] exI [of _ "Some c"] exI [of _ s]
          exI [of _ t] exI [of _ "Some c'"] exI [of _ s'] exI [of _ evs]) simp
  next
    case False
    with dec have lt: "remaining c' < remaining c" by simp
    note next' = progresses_on_next [OF less.prems call False]
    from less.hyps [OF lt next', of "acc @ [t]"] obtain n ts inp1 s1 t1 inp2 s2 evs2 where
      IH: "successive E n (Some c') s' = Some (ts, inp1, s1)"
        "nextToken E inp1 s1 = Some (Inr t1, inp2, s2, evs2)"
        "tk_type t1 = EOF"
        "Option.bind (nextToken E (Some c') s') (getAllTokens_loop E (acc @ [t])) =
           Some (Inr ((acc @ [t]) @ ts), inp2, s2)"
        "length ts = n"
      by blast
    have "Option.bind (nextToken E (Some c) s) (getAllTokens_loop E acc) =
        Some (Inr (acc @ t # ts), inp2, s2)"
      using call False IH(4) by (simp add: getAllTokens_loop.simps)
    moreover have "successive E (Suc n) (Some c) s = Some (t # ts, inp1, s1)"
      using call False IH(1) by simp
    ultimately show ?thesis using IH(2,3,5)
      by (intro exI [of _ "Suc n"] exI [of _ "t # ts"] exI [of _ inp1] exI [of _ s1]
          exI [of _ t1] exI [of _ inp2] exI [of _ s2] exI [of _ evs2]) simp
  qed
qed

text \<open>
  C8. When \<^verbatim>\<open>nextToken\<close> makes forward progress on the input of the cursor, from the
  driver as it is, \<^verbatim>\<open>getAllTokens\<close> ends and returns, for some \<open>n\<close>, the tokens of the
  first \<open>n\<close> calls of \<^verbatim>\<open>nextToken\<close> in the order of the calls, none of them of type
  \<open>EOF\<close>, where the next call returns the first token of type \<open>EOF\<close>, which is not in the
  result; the length of the result is \<open>n\<close>, and the cursor and driver it leaves are those
  after the call that returned the \<open>EOF\<close> token. This holds for the empty input as well.
\<close>

theorem getAllTokens_terminates:
  assumes "progresses_on E c s"
  shows "\<exists>n ts inp1 s1 t inp2 s2 evs.
           successive E n (Some c) s = Some (ts, inp1, s1) \<and>
           nextToken E inp1 s1 = Some (Inr t, inp2, s2, evs) \<and>
           tk_type t = EOF \<and>
           getAllTokens E (Some c) s = Some (Inr ts, inp2, s2) \<and>
           length ts = n"
  using getAllTokens_loop_progress [OF assms, of "[]"]
  by (simp add: getAllTokens_def)

text \<open>
  The condition holds on an input when it holds for the calls before the first token of
  type \<open>EOF\<close>: where the row of \<open>k\<close> calls does not exist, no longer row does.
\<close>

lemma successive_None_Suc:
  "successive E n inp s = None \<Longrightarrow> successive E (Suc n) inp s = None"
proof (induction n arbitrary: inp s)
  case 0
  then show ?case by simp
next
  case (Suc n)
  show ?case
  proof (cases "nextToken E inp s")
    case None
    then show ?thesis by simp
  next
    case (Some y)
    obtain r inp1 s1 evs where y: "y = (r, inp1, s1, evs)" by (cases y) auto
    show ?thesis
    proof (cases r)
      case (Inl e)
      with Some y show ?thesis by simp
    next
      case (Inr t)
      show ?thesis
      proof (cases "tk_type t \<noteq> EOF")
        case True
        with Suc.prems Some y Inr have "successive E n inp1 s1 = None" by simp
        from Suc.IH [OF this] Some y Inr True show ?thesis by simp
      next
        case False
        with Some y Inr show ?thesis by simp
      qed
    qed
  qed
qed

lemma successive_None_le:
  assumes "successive E k inp s = None" and "k \<le> n"
  shows "successive E n inp s = None"
  using assms(2,1) by (induction rule: dec_induct) (simp_all only: successive_None_Suc)

lemma progresses_on_bounded:
  assumes "successive E k (Some c) s = None"
    and "\<forall>n<k. progress_step E n c s"
  shows "progresses_on E c s"
  unfolding progresses_on_def
proof
  fix n
  show "progress_step E n c s"
  proof (cases "n < k")
    case True
    with assms(2) show ?thesis by simp
  next
    case False
    then have "k \<le> n" by simp
    from successive_None_le [OF assms(1) this] show ?thesis
      by (simp add: progress_step_def)
  qed
qed

text \<open>
  An example with modes: on the input of an opening and a closing parenthesis the first
  call pushes a mode and the second pops it, the third call returns the end-of-input
  token, and \<^verbatim>\<open>getAllTokens\<close> returns the two parentheses. The engine makes progress on
  this input; on the input of a closing parenthesis alone it throws.
\<close>

lemma bracket_steps:
  "progress_step bracket 0 (cursor ''()'') InitializeInstanceFields"
  "progress_step bracket 1 (cursor ''()'') InitializeInstanceFields"
  "progress_step bracket 2 (cursor ''()'') InitializeInstanceFields"
  "successive bracket 3 (Some (cursor ''()'')) InitializeInstanceFields = None"
  by code_simp+

lemma bracket_progresses: "progresses_on bracket (cursor ''()'') InitializeInstanceFields"
proof (rule progresses_on_bounded [OF bracket_steps(4)], intro allI impI)
  fix n :: nat
  assume "n < 3"
  then consider "n = 0" | "n = 1" | "n = 2" by linarith
  then show "progress_step bracket n (cursor ''()'') InitializeInstanceFields"
    using bracket_steps(1-3) by cases simp_all
qed

lemma bracket_two_calls:
  "successive bracket 2 (Some (cursor ''()'')) InitializeInstanceFields =
     Some ([create 2 [] 0 0 0 1 0, create 3 [] 0 1 1 1 1],
           Some \<lparr>data = L ''()'', p = 2, markers = []\<rparr>,
           \<lparr>token = Some (create 3 [] 0 1 1 1 1), token_freed = False, type = 3, channel = 0,
              tokenStartCharIndex = 1, tokenStartCharPositionInLine = 1, tokenStartLine = 1,
              text' = [], hitEOF = True, mode = 0, modeStack = [], line = 1,
              charPositionInLine = 2\<rparr>)"
  by code_simp

lemma bracket_first_call:
  "mode (snd (snd (the (successive bracket 1 (Some (cursor ''()'')) InitializeInstanceFields))))
     = 1 \<and>
   modeStack
     (snd (snd (the (successive bracket 1 (Some (cursor ''()'')) InitializeInstanceFields))))
     = [0]"
  by code_simp

lemma bracket_all_tokens:
  "getAllTokens bracket (Some (cursor ''()'')) InitializeInstanceFields =
     Some (Inr [create 2 [] 0 0 0 1 0, create 3 [] 0 1 1 1 1],
           Some \<lparr>data = L ''()'', p = 2, markers = []\<rparr>,
           \<lparr>token = Some (create EOF [] 0 2 1 1 2), token_freed = False, type = 3,
              channel = 0, tokenStartCharIndex = 1, tokenStartCharPositionInLine = 1,
              tokenStartLine = 1, text' = [], hitEOF = True, mode = 0, modeStack = [],
              line = 1, charPositionInLine = 2\<rparr>)"
  by code_simp

lemma bracket_throws:
  "\<not> progresses_on bracket (cursor '')'') InitializeInstanceFields \<and>
   fst (the (getAllTokens bracket (Some (cursor '')'')) InitializeInstanceFields)) =
     Inl EmptyStackException"
proof -
  have "\<not> progress_step bracket 0 (cursor '')'') InitializeInstanceFields" by code_simp
  then have "\<not> progresses_on bracket (cursor '')'') InitializeInstanceFields"
    unfolding progresses_on_def by blast
  moreover have
    "fst (the (getAllTokens bracket (Some (cursor '')'')) InitializeInstanceFields)) =
       Inl EmptyStackException"
    by code_simp
  ultimately show ?thesis by blast
qed

theorem getAllTokens_terminates_witness:
  "progresses_on bracket (cursor ''()'') InitializeInstanceFields \<and>
   successive bracket 2 (Some (cursor ''()'')) InitializeInstanceFields =
     Some ([create 2 [] 0 0 0 1 0, create 3 [] 0 1 1 1 1],
           Some \<lparr>data = L ''()'', p = 2, markers = []\<rparr>,
           \<lparr>token = Some (create 3 [] 0 1 1 1 1), token_freed = False, type = 3, channel = 0,
              tokenStartCharIndex = 1, tokenStartCharPositionInLine = 1, tokenStartLine = 1,
              text' = [], hitEOF = True, mode = 0, modeStack = [], line = 1,
              charPositionInLine = 2\<rparr>) \<and>
   getAllTokens bracket (Some (cursor ''()'')) InitializeInstanceFields =
     Some (Inr [create 2 [] 0 0 0 1 0, create 3 [] 0 1 1 1 1],
           Some \<lparr>data = L ''()'', p = 2, markers = []\<rparr>,
           \<lparr>token = Some (create EOF [] 0 2 1 1 2), token_freed = False, type = 3,
              channel = 0, tokenStartCharIndex = 1, tokenStartCharPositionInLine = 1,
              tokenStartLine = 1, text' = [], hitEOF = True, mode = 0, modeStack = [],
              line = 1, charPositionInLine = 2\<rparr>) \<and>
   (\<exists>n ts inp1 s1 t inp2 s2 evs.
      successive bracket n (Some (cursor ''()'')) InitializeInstanceFields =
        Some (ts, inp1, s1) \<and>
      nextToken bracket inp1 s1 = Some (Inr t, inp2, s2, evs) \<and>
      tk_type t = EOF \<and>
      Some (Inr [create 2 [] 0 0 0 1 0, create 3 [] 0 1 1 1 1],
           Some \<lparr>data = L ''()'', p = 2, markers = []\<rparr>,
           \<lparr>token = Some (create EOF [] 0 2 1 1 2), token_freed = False, type = 3,
              channel = 0, tokenStartCharIndex = 1, tokenStartCharPositionInLine = 1,
              tokenStartLine = 1, text' = [], hitEOF = True, mode = 0, modeStack = [],
              line = 1, charPositionInLine = 2\<rparr>) = Some (Inr ts, inp2, s2) \<and>
      length ts = n)"
  using bracket_progresses bracket_two_calls bracket_all_tokens
    getAllTokens_terminates [OF bracket_progresses]
  unfolding bracket_all_tokens by blast

text \<open>
  The condition on the engine alone is enough for forward progress on every input, from
  every driver whose token pointer is not dangling: each call of \<^verbatim>\<open>nextToken\<close> then
  returns a token.
\<close>

lemma remaining_recover:
  "remaining (fst (recover c s)) \<le> remaining c \<and>
   (LA1 c \<noteq> EOF \<longrightarrow> remaining (fst (recover c s)) < remaining c) \<and>
   (LA1 c = EOF \<longrightarrow> fst (recover c s) = c) \<and>
   type (snd (recover c s)) = type s \<and>
   dangling (snd (recover c s)) = dangling s"
  by (auto simp: recover_def interp_consume_def consume_char_def remaining_def LA1_def
      dangling_def split: if_splits)

lemma settle_props:
  "hitEOF (settle ty c s) = (hitEOF s \<or> LA1 c = EOF) \<and>
   type (settle ty c s) = (if type s = INVALID_TYPE then ty else type s) \<and>
   token (settle ty c s) = token s \<and>
   dangling (settle ty c s) = dangling s"
  by (simp add: settle_def Let_def dangling_def)

lemma emit_props:
  "tk_type (fst (emit c s)) = type s \<and> \<not> dangling (snd (emit c s))"
  by (simp add: emit_def Let_def create_def emit_token_def dangling_def)

lemma candidate_progress:
  assumes ep: "engine_progress E"
    and "remaining c \<le> R"
    and "token s = None \<or> remaining c < R"
    and "\<not> dangling s"
  shows "\<exists>sig c1 s1 evs1.
           candidate E evs c s = Some (sig, c1, s1, evs1) \<and>
           remaining c1 \<le> remaining c \<and>
           \<not> dangling s1 \<and>
           (case sig of
              Restart \<Rightarrow> remaining c1 < R \<or> hitEOF s1
            | Return t \<Rightarrow> remaining c1 < R \<or> tk_type t = EOF
            | Throw e \<Rightarrow> False)"
  using assms(2,3,4)
proof (induction "remaining c" arbitrary: c s evs rule: less_induct)
  case less
  define s' where "s' = s\<lparr>type := INVALID_TYPE\<rparr>"
  have s': "type s' = INVALID_TYPE" "token s' = token s" "\<not> dangling s'"
    using less.prems(3) by (simp_all add: s'_def dangling_def)
  obtain r c1 s1 where m: "match E c s' = (r, c1, s1)" by (cases "match E c s'")
  note inst = ep [unfolded engine_progress_def, rule_format, where c = c and s = s']
  show ?case
  proof (cases r)
    case (Inl e)
    with inst m s' have e: "e = LexerNoViableAltException" and ty: "type s1 = INVALID_TYPE"
      and le: "remaining c1 \<le> remaining c" and nd1: "\<not> dangling s1"
      by simp_all
    define c2 where "c2 = fst (recover c1 s1)"
    define s2 where "s2 = snd (recover c1 s1)"
    define s3 where "s3 = settle SKIP c2 s2"
    have tm: "try_match E c s' = Inr (SKIP, c2, s2, [notifyListeners c1 s1])"
      using m Inl e by (simp add: try_match_def c2_def s2_def split: prod.splits)
    have ty3: "type s3 = SKIP"
      using ty remaining_recover [of c1 s1] settle_props [of SKIP c2 s2]
      by (simp add: s3_def s2_def)
    have nd3: "\<not> dangling s3"
      using nd1 remaining_recover [of c1 s1] settle_props [of SKIP c2 s2]
      by (simp add: s3_def s2_def)
    have run: "candidate E evs c s = Some (Restart, c2, s3, evs @ [notifyListeners c1 s1])"
      by (subst candidate.simps)
        (simp add: tm [unfolded s'_def] ty3 [unfolded s3_def] Let_def s3_def)
    have le2: "remaining c2 \<le> remaining c"
      using le remaining_recover [of c1 s1] by (simp add: c2_def)
    have "remaining c2 < R \<or> hitEOF s3"
    proof (cases "LA1 c1 = EOF")
      case True
      with remaining_recover [of c1 s1] have "c2 = c1" by (simp add: c2_def)
      with True settle_props [of SKIP c2 s2] show ?thesis by (simp add: s3_def)
    next
      case False
      with remaining_recover [of c1 s1] have "remaining c2 < remaining c1" by (simp add: c2_def)
      with le less.prems(1) show ?thesis by simp
    qed
    with run le2 nd3 show ?thesis by simp
  next
    case (Inr ty)
    define s2 where "s2 = settle ty c1 s1"
    have tm: "try_match E c s' = Inr (ty, c1, s1, [])"
      using m Inr by (simp add: try_match_def)
    from inst m Inr s' have nd1: "\<not> dangling s1" by simp
    then have nd2: "\<not> dangling s2"
      using settle_props [of ty c1 s1] by (simp add: s2_def)
    from inst m Inr consider
      (consumed) "remaining c1 < remaining c"
      | (at_end) "LA1 c = EOF" "ty = EOF" "c1 = c" "s1 = s'"
      by auto
    then show ?thesis
    proof cases
      case consumed
      with less.prems(1) have lt: "remaining c1 < R" by simp
      consider (skip) "type s2 = SKIP" | (more) "type s2 \<noteq> SKIP" "type s2 = MORE"
        | (emit) "type s2 \<noteq> SKIP" "type s2 \<noteq> MORE" by blast
      then show ?thesis
      proof cases
        case skip
        then have "candidate E evs c s = Some (Restart, c1, s2, evs @ [])"
          by (subst candidate.simps) (simp add: tm [unfolded s'_def] Let_def s2_def)
        with lt consumed nd2 show ?thesis by simp
      next
        case more
        then have eq: "candidate E evs c s = candidate E (evs @ []) c1 s2"
          by (subst candidate.simps) (simp add: tm [unfolded s'_def] Let_def s2_def)
        from less.hyps [OF consumed, of s2 "evs @ []"] lt nd2
        obtain sig c3 s3 evs3 where
          "candidate E (evs @ []) c1 s2 = Some (sig, c3, s3, evs3)"
          "remaining c3 \<le> remaining c1"
          "\<not> dangling s3"
          "case sig of Restart \<Rightarrow> remaining c3 < R \<or> hitEOF s3
           | Return t \<Rightarrow> remaining c3 < R \<or> tk_type t = EOF | Throw e \<Rightarrow> False"
          by auto
        with eq consumed show ?thesis by auto
      next
        case emit
        show ?thesis
        proof (cases "token s2")
          case None
          with emit have "candidate E evs c s =
              Some (Return (fst (emit c1 s2)), c1, snd (emit c1 s2), evs @ [])"
            by (subst candidate.simps)
              (simp add: tm [unfolded s'_def] Let_def s2_def split: prod.splits)
          with lt consumed emit_props [of c1 s2] show ?thesis by simp
        next
          case (Some tk)
          with emit have "candidate E evs c s = Some (Return tk, c1, s2, evs @ [])"
            by (subst candidate.simps) (simp add: tm [unfolded s'_def] Let_def s2_def)
          with lt consumed nd2 show ?thesis by simp
        qed
      qed
    next
      case at_end
      have s2: "type s2 = EOF" "token s2 = token s" "hitEOF s2"
        using at_end s' settle_props [of ty c1 s1] by (simp_all add: s2_def)
      then have ns: "type s2 \<noteq> SKIP" "type s2 \<noteq> MORE" by (simp_all add: sentinel_defs)
      show ?thesis
      proof (cases "token s")
        case None
        with s2 ns have "candidate E evs c s =
            Some (Return (fst (emit c1 s2)), c1, snd (emit c1 s2), evs @ [])"
          by (subst candidate.simps)
            (simp add: tm [unfolded s'_def] Let_def s2_def split: prod.splits)
        with emit_props [of c1 s2] s2 at_end show ?thesis by simp
      next
        case (Some tk)
        with s2 ns have "candidate E evs c s = Some (Return tk, c1, s2, evs @ [])"
          by (subst candidate.simps) (simp add: tm [unfolded s'_def] Let_def s2_def)
        moreover from Some less.prems(2) have "remaining c < R" by simp
        ultimately show ?thesis using at_end nd2 by simp
      qed
    qed
  qed
qed

lemma nextToken_loop_progress:
  assumes ep: "engine_progress E" and "\<not> dangling s"
  shows "\<exists>t c1 s1 evs1.
           nextToken_loop E evs c s = Some (Inr t, c1, s1, evs1) \<and>
           (tk_type t = EOF \<or> remaining c1 < remaining c) \<and>
           \<not> dangling s1"
  using assms(2)
proof (induction "remaining c" arbitrary: c s evs rule: less_induct)
  case less
  have eof: "\<exists>t c1 s1 evs1.
           nextToken_loop E evs c s = Some (Inr t, c1, s1, evs1) \<and> tk_type t = EOF \<and>
           \<not> dangling s1"
    if "hitEOF s" for evs c s
    using that
    by (subst nextToken_loop.simps)
      (simp add: emitEOF_def Let_def create_def emit_token_def dangling_def)
  show ?case
  proof (cases "hitEOF s")
    case True
    from eof [OF this] show ?thesis by blast
  next
    case False
    have "token (start_candidate c s) = None" "\<not> dangling (start_candidate c s)"
      by (simp_all add: start_candidate_def dangling_def)
    with candidate_progress [OF ep, of c "remaining c" "start_candidate c s" evs]
    obtain sig c1 s1 evs1 where
      run: "candidate E evs c (start_candidate c s) = Some (sig, c1, s1, evs1)" and
      le: "remaining c1 \<le> remaining c" and
      nd: "\<not> dangling s1" and
      sig: "case sig of Restart \<Rightarrow> remaining c1 < remaining c \<or> hitEOF s1
            | Return t \<Rightarrow> remaining c1 < remaining c \<or> tk_type t = EOF | Throw e \<Rightarrow> False"
      by auto
    show ?thesis
    proof (cases sig)
      case Restart
      with False less.prems run
      have eq: "nextToken_loop E evs c s = nextToken_loop E evs1 c1 s1"
        by (subst nextToken_loop.simps) simp
      show ?thesis
      proof (cases "hitEOF s1")
        case True
        from eof [OF this, of evs1 c1] eq show ?thesis by auto
      next
        case False
        with sig Restart have "remaining c1 < remaining c" by simp
        from less.hyps [OF this nd, of evs1] this eq show ?thesis by auto
      qed
    next
      case (Return t)
      with False less.prems run
      have "nextToken_loop E evs c s = Some (Inr t, c1, s1, evs1)"
        by (subst nextToken_loop.simps) simp
      with sig Return nd show ?thesis by auto
    next
      case (Throw e)
      with sig show ?thesis by simp
    qed
  qed
qed

lemma nextToken_progress:
  assumes "engine_progress E" and "\<not> dangling s"
  shows "\<exists>t c' s' evs.
           nextToken E (Some c) s = Some (Inr t, Some c', s', evs) \<and>
           (tk_type t = EOF \<or> remaining c' < remaining c) \<and>
           \<not> dangling s'"
proof -
  obtain k c0 where m: "mark c = (k, c0)" by (cases "mark c")
  then have r0: "remaining c0 = remaining c" by (auto simp: mark_def remaining_def Let_def)
  from nextToken_loop_progress [OF assms, of "[Mark k]" c0] obtain t c1 s1 evs1 where
    loop: "nextToken_loop E [Mark k] c0 s = Some (Inr t, c1, s1, evs1)" and
    dec: "tk_type t = EOF \<or> remaining c1 < remaining c0" and
    nd: "\<not> dangling s1"
    by blast
  have "remaining (release k c1) = remaining c1" by (simp add: release_def remaining_def)
  with loop dec r0 m nd show ?thesis by (simp add: nextToken_def)
qed

lemma successive_not_dangling:
  assumes "engine_progress E" and "\<not> dangling s"
    and "successive E n (Some c) s = Some (ts, inp1, s1)"
  shows "(\<exists>c1. inp1 = Some c1) \<and> \<not> dangling s1"
  using assms(2,3)
proof (induction n arbitrary: c s ts)
  case 0
  then show ?case by auto
next
  case (Suc n)
  from nextToken_progress [OF assms(1) Suc.prems(1), of c] obtain t c' s' evs where
    call: "nextToken E (Some c) s = Some (Inr t, Some c', s', evs)" and
    nd: "\<not> dangling s'"
    by blast
  from Suc.prems(2) call obtain ts' where
    "successive E n (Some c') s' = Some (ts', inp1, s1)"
    by (auto split: if_splits)
  from Suc.IH [OF nd this] show ?case .
qed

lemma engine_progress_progresses_on:
  assumes "engine_progress E" and "\<not> dangling s"
  shows "progresses_on E c s"
  unfolding progresses_on_def
proof
  fix n
  show "progress_step E n c s"
  proof (cases "successive E n (Some c) s")
    case None
    then show ?thesis by (simp add: progress_step_def)
  next
    case (Some y)
    obtain ts inp1 s1 where y: "y = (ts, inp1, s1)" by (cases y) auto
    from successive_not_dangling [OF assms Some [unfolded y]] obtain c1 where
      c1: "inp1 = Some c1" and nd: "\<not> dangling s1"
      by blast
    from nextToken_progress [OF assms(1) nd, of c1] obtain t c' s' evs where
      "nextToken E (Some c1) s1 = Some (Inr t, Some c', s', evs)"
      "tk_type t = EOF \<or> remaining c' < remaining c1"
      by blast
    with Some y c1 show ?thesis by (simp add: progress_step_def)
  qed
qed

lemma engine_progress_demo: "engine_progress demo"
  unfolding engine_progress_def
  by (auto simp: demo_def demo_match_def interp_consume_def consume_char_def remaining_def
      LA1_def dangling_def skip_def more_def split: if_splits)

lemma demo_progresses:
  "progresses_on demo (cursor cs) InitializeInstanceFields"
  by (rule engine_progress_progresses_on [OF engine_progress_demo])
    (simp add: dangling_def InitializeInstanceFields_def)

end
